theory Spec2Isabelle
  imports Complex_Main
begin

section \<open>Python values used by the upload and export handlers\<close>

text \<open>
  Python \<open>str\<close> values are modelled as \<open>string\<close>; a character with the top bit set
  stands for non-ASCII content. \<open>Optional[str]\<close> is \<open>string option\<close>, \<open>bytes\<close> is a
  list of characters, a \<open>frozenset\<close> of strings is a \<open>string set\<close>.
\<close>

type_synonym bytes = "char list"

definition isascii :: "string \<Rightarrow> bool" where
  "isascii v = (\<forall>c \<in> set v. \<not> digit7 c)"

definition ascii_uppercase :: string where
  "ascii_uppercase = ''ABCDEFGHIJKLMNOPQRSTUVWXYZ''"

definition ascii_lowercase :: string where
  "ascii_lowercase = ''abcdefghijklmnopqrstuvwxyz''"

text \<open>\<open>str.islower\<close> on an ASCII string: there is a cased character and none is upper case.\<close>

definition islower :: "string \<Rightarrow> bool" where
  "islower v = ((\<exists>c \<in> set v. c \<in> set ascii_lowercase) \<and> \<not> (\<exists>c \<in> set v. c \<in> set ascii_uppercase))"

definition lower_char :: "char \<Rightarrow> char" where
  "lower_char c = (case map_of (zip ascii_uppercase ascii_lowercase) c of Some l \<Rightarrow> l | None \<Rightarrow> c)"

text \<open>\<open>str.lower\<close>; the source only calls it on strings that passed \<open>isascii\<close>.\<close>

definition lower :: "string \<Rightarrow> string" where
  "lower v = map lower_char v"

text \<open>
  The messages of the \<open>ValueError\<close>s raised by the upload path. Each constructor stands for
  one f-string of the source and carries the values interpolated into it.
\<close>

datatype message =
    InvalidFileContentType "string option"
  | InvalidFileContentEncoding "string option"
  | MissingCSVColumnHeader
  | DuplicatedColumnHeader string
  | NotEnoughValuesToUnpack
  | FileIsNotValidPyarrow
  | KeysNotFound string "string set"
  | DatasetNameMustNotBeEmpty
  | MalformedFileInFormData
  | KeysOverlap string string "string set"
  | DatasetAlreadyExists string
  | MissingDatasetID
  | InvalidDatasetID
  | InvalidDatasetVersionID
  | DatasetDoesNotExist
  | DatasetHasNoExamples string
  | ExperimentRunDoesNotExist
  | LibraryMessage string

text \<open>
  Exceptions. Only \<open>ValueError\<close> is caught by the upload handler; \<open>RecursionError\<close> is what
  the interpreter raises when the call stack is exhausted; \<open>OverflowError\<close> and
  \<open>IntegrityError\<close> come from the execution of a statement; \<open>OtherError\<close> covers the
  exceptions of library calls that are not \<open>ValueError\<close>s (\<open>OSError\<close>, \<open>zlib.error\<close>, ...).
\<close>

datatype py_exception =
    ValueError message
  | KeyError string
  | RecursionError
  | ArrowInvalid
  | QueueFull
  | OverflowError
  | IntegrityError
  | OtherError string

section \<open>The enums \<open>FileContentType\<close> and \<open>FileContentEncoding\<close>\<close>

datatype FileContentType = CSV | PYARROW

fun FileContentType_value :: "FileContentType \<Rightarrow> string" where
  "FileContentType_value CSV = ''text/csv''"
| "FileContentType_value PYARROW = ''application/x-pandas-pyarrow''"

text \<open>The by-value lookup of \<open>Enum.__new__\<close>; \<open>None\<close> is no member's value.\<close>

definition FileContentType_value2member :: "string option \<Rightarrow> FileContentType option" where
  "FileContentType_value2member v =
     (case v of None \<Rightarrow> None
      | Some s \<Rightarrow> if s = FileContentType_value CSV then Some CSV
                  else if s = FileContentType_value PYARROW then Some PYARROW
                  else None)"

text \<open>
  \<open>FileContentType(v)\<close>: the lookup by value, then the \<open>_missing_\<close> hook, which calls
  \<open>cls(v.lower())\<close> again. The first argument is the number of nested calls the
  interpreter's stack still allows; at zero the call raises \<open>RecursionError\<close>, which
  \<open>Enum.__new__\<close> lets through.
\<close>

fun FileContentType_new :: "nat \<Rightarrow> string option \<Rightarrow> py_exception + FileContentType" where
  "FileContentType_new 0 v = Inl RecursionError"
| "FileContentType_new (Suc n) v =
     (case FileContentType_value2member v of
        Some m \<Rightarrow> Inr m
      | None \<Rightarrow>
          (case v of
             Some s \<Rightarrow>
               if s \<noteq> [] \<and> isascii s \<and> \<not> islower s
               then FileContentType_new n (Some (lower s))
               else Inl (ValueError (InvalidFileContentType v))
           | None \<Rightarrow> Inl (ValueError (InvalidFileContentType v))))"

datatype FileContentEncoding = NONE | GZIP | DEFLATE

fun FileContentEncoding_value :: "FileContentEncoding \<Rightarrow> string" where
  "FileContentEncoding_value NONE = ''none''"
| "FileContentEncoding_value GZIP = ''gzip''"
| "FileContentEncoding_value DEFLATE = ''deflate''"

definition FileContentEncoding_value2member :: "string option \<Rightarrow> FileContentEncoding option" where
  "FileContentEncoding_value2member v =
     (case v of None \<Rightarrow> None
      | Some s \<Rightarrow> if s = FileContentEncoding_value NONE then Some NONE
                  else if s = FileContentEncoding_value GZIP then Some GZIP
                  else if s = FileContentEncoding_value DEFLATE then Some DEFLATE
                  else None)"

fun FileContentEncoding_new :: "nat \<Rightarrow> string option \<Rightarrow> py_exception + FileContentEncoding" where
  "FileContentEncoding_new 0 v = Inl RecursionError"
| "FileContentEncoding_new (Suc n) v =
     (case FileContentEncoding_value2member v of
        Some m \<Rightarrow> Inr m
      | None \<Rightarrow>
          (case v of
             None \<Rightarrow> FileContentEncoding_new n (Some ''none'')
           | Some s \<Rightarrow>
               if s \<noteq> [] \<and> isascii s \<and> \<not> islower s
               then FileContentEncoding_new n (Some (lower s))
               else Inl (ValueError (InvalidFileContentEncoding v))))"


section \<open>The database tables read and written by the handlers\<close>

text \<open>
  JSON documents (the \<open>input\<close>, \<open>output\<close> and \<open>metadata\<close> columns) are dictionaries
  from strings to JSON values.
\<close>

datatype json = JNull | JBool bool | JNum int | JStr string | JArr "json list" | JObj "(string \<times> json) list"

type_synonym document = "string \<rightharpoonup> json"

datatype revision_kind = CREATE | PATCH | DELETE

record dataset =
  dataset_id :: int
  dataset_name :: string

record dataset_version =
  version_id :: int
  version_dataset_id :: int

record dataset_example =
  example_id :: int
  example_dataset_id :: int

record dataset_example_revision =
  dataset_example_id :: int
  dataset_version_id :: int
  revision_kind :: revision_kind
  rev_input :: document
  rev_output :: document
  rev_metadata :: document

text \<open>A \<open>datetime\<close>, to the second: year, month, day, hour, minute, second.\<close>

datatype datetime = Datetime nat nat nat nat nat nat

record annotation_values =
  experiment_run_id :: int
  name :: string
  annotator_kind :: string
  label :: "string option"
  score :: "real option"
  explanation :: "string option"
  error :: "string option"
  annotation_metadata :: document
  start_time :: datetime
  end_time :: datetime
  trace_id :: "string option"

record experiment_run_annotation = annotation_values +
  annotation_id :: int

text \<open>The tables; of the experiment runs, the ids of the rows.\<close>

record database =
  datasets :: "dataset list"
  dataset_versions :: "dataset_version list"
  dataset_examples :: "dataset_example list"
  dataset_example_revisions :: "dataset_example_revision list"
  experiment_runs :: "int list"
  experiment_run_annotations :: "experiment_run_annotation list"

section \<open>Upload: decoding and validation\<close>

text \<open>
  Modelled from the spec: the enum \<open>DatasetAction\<close> of \<open>phoenix.db.insertion.dataset\<close>
  (create a new dataset, or append to an existing one); how it parses its value is a
  parameter of the handler.
\<close>

datatype dataset_action = DatasetAction_CREATE | DatasetAction_APPEND

text \<open>
  The library calls of the upload path, as parameters: \<open>gzip.decompress\<close>,
  \<open>zlib.decompress\<close>, \<open>bytes.decode\<close>, the \<open>fieldnames\<close> of a \<open>csv.DictReader\<close> over a
  text (\<open>None\<close> when the text has no first row), the schema names of
  \<open>pa.ipc.open_stream\<close>, the constructor of \<open>DatasetAction\<close>, and the depth of calls the
  interpreter's stack allows.
\<close>

record env =
  gzip_decompress :: "bytes \<Rightarrow> py_exception + bytes"
  zlib_decompress :: "bytes \<Rightarrow> py_exception + bytes"
  bytes_decode :: "bytes \<Rightarrow> py_exception + string"
  DictReader_fieldnames :: "string \<Rightarrow> py_exception + string list option"
  pa_ipc_open_stream :: "bytes \<Rightarrow> py_exception + string list"
  DatasetAction :: "string \<Rightarrow> py_exception + dataset_action"
  stack_depth :: nat

text \<open>\<open>collections.Counter\<close> of a list: the counts, in the order of first occurrence.\<close>

fun increment :: "'a \<Rightarrow> ('a \<times> nat) list \<Rightarrow> ('a \<times> nat) list" where
  "increment x [] = [(x, 1)]"
| "increment x ((k, n) # c) = (if k = x then (k, Suc n) # c else (k, n) # increment x c)"

definition Counter :: "'a list \<Rightarrow> ('a \<times> nat) list" where
  "Counter xs = fold increment xs []"

text \<open>
  \<open>most_common(1)\<close> is \<open>heapq.nlargest(1, items, key=count)\<close>, that is \<open>max\<close> with a
  key: the first item of greatest count, or nothing for an empty counter.
\<close>

fun most_common_1 :: "('a \<times> nat) list \<Rightarrow> ('a \<times> nat) list" where
  "most_common_1 [] = []"
| "most_common_1 (x # xs) = [fold (\<lambda>y best. if snd best < snd y then y else best) xs x]"

text \<open>The lazy record sequence that \<open>get_examples\<close> yields from: the reader it closes over.\<close>

datatype examples = CsvReader string | ArrowReader bytes

text \<open>\<open>_process_csv\<close>\<close>

definition process_csv :: "env \<Rightarrow> bytes \<Rightarrow> FileContentEncoding \<Rightarrow> py_exception + (examples \<times> string set)" where
  "process_csv env content content_encoding =
     (case (case content_encoding of
              GZIP \<Rightarrow> gzip_decompress env content
            | DEFLATE \<Rightarrow> zlib_decompress env content
            | NONE \<Rightarrow> Inr content) of
        Inl e \<Rightarrow> Inl e
      | Inr content' \<Rightarrow>
          (case bytes_decode env content' of
             Inl e \<Rightarrow> Inl e
           | Inr text \<Rightarrow>
               (case DictReader_fieldnames env text of
                  Inl e \<Rightarrow> Inl e
                | Inr None \<Rightarrow> Inl (ValueError MissingCSVColumnHeader)
                | Inr (Some fieldnames) \<Rightarrow>
                    (case most_common_1 (Counter fieldnames) of
                       [] \<Rightarrow> Inl (ValueError NotEnoughValuesToUnpack)
                     | (header, freq) # _ \<Rightarrow>
                         if 1 < freq then Inl (ValueError (DuplicatedColumnHeader header))
                         else Inr (CsvReader text, set fieldnames)))))"

text \<open>\<open>_process_pyarrow\<close>\<close>

definition process_pyarrow :: "env \<Rightarrow> bytes \<Rightarrow> py_exception + (examples \<times> string set)" where
  "process_pyarrow env content =
     (case pa_ipc_open_stream env content of
        Inl ArrowInvalid \<Rightarrow> Inl (ValueError FileIsNotValidPyarrow)
      | Inl e \<Rightarrow> Inl e
      | Inr names \<Rightarrow> Inr (ArrowReader content, set names))"

text \<open>\<open>_check_table_exists\<close>\<close>

definition check_table_exists :: "database \<Rightarrow> string \<Rightarrow> bool" where
  "check_table_exists d nm = (nm \<in> set (map dataset_name (datasets d)))"

text \<open>\<open>_check_keys_exist\<close>: the loop over the three described key sets.\<close>

fun check_keys_loop :: "string set \<Rightarrow> (string \<times> string set) list \<Rightarrow> py_exception + unit" where
  "check_keys_loop column_headers [] = Inr ()"
| "check_keys_loop column_headers ((desc, keys) # rest) =
     (if keys - column_headers \<noteq> {}
      then Inl (ValueError (KeysNotFound desc (keys - column_headers)))
      else check_keys_loop column_headers rest)"

definition check_keys_exist :: "string set \<Rightarrow> string set \<Rightarrow> string set \<Rightarrow> string set \<Rightarrow> py_exception + unit" where
  "check_keys_exist column_headers input_keys output_keys metadata_keys =
     check_keys_loop column_headers
       [(''input'', input_keys), (''output'', output_keys), (''metadata'', metadata_keys)]"

record upload_file =
  filename :: "string option"
  content_type :: "string option"
  content_encoding :: "string option"
  file_content :: bytes

datatype form_value = FormString string | FormUpload upload_file

text \<open>
  The multipart form: the fields the handler reads. \<open>form_file\<close> is \<open>None\<close> when the form
  has no \<open>file\<close> field, where \<open>form["file"]\<close> raises \<open>KeyError\<close>.
\<close>

record form_data =
  form_name :: "string option"
  form_action :: "string option"
  form_file :: "form_value option"
  form_description :: "string option"
  form_input_keys :: "string list"
  form_output_keys :: "string list"
  form_metadata_keys :: "string list"

text \<open>
  Python's \<open>x or y\<close> on an optional string, where \<open>None\<close> and the empty string are
  false: with a string as default, and with another optional string as default.
\<close>

definition or_default :: "string option \<Rightarrow> string \<Rightarrow> string" where
  "or_default x y = (case x of None \<Rightarrow> y | Some s \<Rightarrow> if s = [] then y else s)"

definition or_else :: "string option \<Rightarrow> string option \<Rightarrow> string option" where
  "or_else x y = (case x of None \<Rightarrow> y | Some s \<Rightarrow> if s = [] then y else Some s)"

record parsed_form =
  action :: dataset_action
  parsed_name :: string
  description :: "string option"
  input_keys :: "string set"
  output_keys :: "string set"
  metadata_keys :: "string set"
  uploaded :: upload_file

text \<open>\<open>_parse_form_data\<close>\<close>

definition parse_form_data :: "env \<Rightarrow> form_data \<Rightarrow> py_exception + parsed_form" where
  "parse_form_data env form =
     (case or_else (form_name form) None of
        None \<Rightarrow> Inl (ValueError DatasetNameMustNotBeEmpty)
      | Some nm \<Rightarrow>
          (case DatasetAction env (or_default (form_action form) ''create'') of
             Inl e \<Rightarrow> Inl e
           | Inr act \<Rightarrow>
               (case form_file form of
                  None \<Rightarrow> Inl (KeyError ''file'')
                | Some (FormString s) \<Rightarrow> Inl (ValueError MalformedFileInFormData)
                | Some (FormUpload f) \<Rightarrow>
                    (let ik = set (form_input_keys form);
                         ok = set (form_output_keys form);
                         mk = set (form_metadata_keys form)
                     in if ik \<inter> ok \<noteq> {} then Inl (ValueError (KeysOverlap ''input_keys'' ''output_keys'' (ik \<inter> ok)))
                        else if ik \<inter> mk \<noteq> {} then Inl (ValueError (KeysOverlap ''input_keys'' ''metadata_keys'' (ik \<inter> mk)))
                        else if ok \<inter> mk \<noteq> {} then Inl (ValueError (KeysOverlap ''output_keys'' ''metadata_keys'' (ok \<inter> mk)))
                        else Inr \<lparr>action = act, parsed_name = nm,
                                  description = or_else (form_description form) (filename f),
                                  input_keys = ik, output_keys = ok, metadata_keys = mk,
                                  uploaded = f\<rparr>))))"


section \<open>Upload: admission\<close>

text \<open>The write intent handed to the queue: \<open>partial(add_dataset_examples, ...)\<close>.\<close>

record job =
  job_examples :: examples
  job_action :: dataset_action
  job_name :: string
  job_description :: "string option"
  job_input_keys :: "string set"
  job_output_keys :: "string set"
  job_metadata_keys :: "string set"

record app_state =
  read_only :: bool
  db :: database
  queue :: "job list"
  queue_maxsize :: nat

text \<open>
  Modelled from the spec: \<open>request.state.enqueue_operation\<close> is not in the sources. The
  admission queue has a fixed capacity and submission does not block: at capacity it
  raises \<open>QueueFull\<close>, otherwise the job is appended behind the jobs already admitted.
\<close>

definition enqueue_operation :: "app_state \<Rightarrow> job \<Rightarrow> py_exception + app_state" where
  "enqueue_operation st j =
     (if queue_maxsize st \<le> length (queue st) then Inl QueueFull
      else Inr (st\<lparr>queue := queue st @ [j]\<rparr>))"

definition HTTP_403_FORBIDDEN :: nat where "HTTP_403_FORBIDDEN = 403"
definition HTTP_404_NOT_FOUND :: nat where "HTTP_404_NOT_FOUND = 404"
definition HTTP_422_UNPROCESSABLE_ENTITY :: nat where "HTTP_422_UNPROCESSABLE_ENTITY = 422"
definition HTTP_429_TOO_MANY_REQUESTS :: nat where "HTTP_429_TOO_MANY_REQUESTS = 429"

text \<open>
  What a handler answers: a response with a status and an optional message, the CSV
  attachment of the export (file name and records, before serialisation), the JSON of a
  stored evaluation, or an exception that no handler catches.
\<close>

datatype response =
    Response nat "message option"
  | CsvAttachment string "document list"
  | EvaluationJSON experiment_run_annotation
  | Unhandled py_exception

record outcome =
  response :: response
  state :: app_state
  examples_closed :: bool

text \<open>
  The body of the second \<open>try\<close> of \<open>post_datasets_upload\<close>: the decoder is chosen by the
  content type, the encoding is parsed before \<open>_process_csv\<close> is called, and the role
  keys are checked against the discovered columns.
\<close>

definition decode_upload :: "env \<Rightarrow> parsed_form \<Rightarrow> py_exception + examples" where
  "decode_upload env p =
     (case FileContentType_new (stack_depth env) (content_type (uploaded p)) of
        Inl e \<Rightarrow> Inl e
      | Inr ct \<Rightarrow>
          (case (case ct of
                   CSV \<Rightarrow>
                     (case FileContentEncoding_new (stack_depth env) (content_encoding (uploaded p)) of
                        Inl e \<Rightarrow> Inl e
                      | Inr enc \<Rightarrow> process_csv env (file_content (uploaded p)) enc)
                 | PYARROW \<Rightarrow> process_pyarrow env (file_content (uploaded p))) of
             Inl e \<Rightarrow> Inl e
           | Inr (get_examples, column_headers) \<Rightarrow>
               (case check_keys_exist column_headers (input_keys p) (output_keys p) (metadata_keys p) of
                  Inl e \<Rightarrow> Inl e
                | Inr _ \<Rightarrow> Inr get_examples)))"

definition post_datasets_upload :: "env \<Rightarrow> app_state \<Rightarrow> form_data \<Rightarrow> outcome" where
  "post_datasets_upload env st form =
     (if read_only st
      then \<lparr>response = Response HTTP_403_FORBIDDEN None, state = st, examples_closed = False\<rparr>
      else
        (case parse_form_data env form of
           Inl (ValueError m) \<Rightarrow>
             \<lparr>response = Response HTTP_422_UNPROCESSABLE_ENTITY (Some m), state = st, examples_closed = False\<rparr>
         | Inl e \<Rightarrow> \<lparr>response = Unhandled e, state = st, examples_closed = False\<rparr>
         | Inr p \<Rightarrow>
             if action p = DatasetAction_CREATE \<and> check_table_exists (db st) (parsed_name p)
             then \<lparr>response = Response HTTP_422_UNPROCESSABLE_ENTITY (Some (DatasetAlreadyExists (parsed_name p))),
                   state = st, examples_closed = False\<rparr>
             else
               (case decode_upload env p of
                  Inl (ValueError m) \<Rightarrow>
                    \<lparr>response = Response HTTP_422_UNPROCESSABLE_ENTITY (Some m), state = st, examples_closed = False\<rparr>
                | Inl e \<Rightarrow> \<lparr>response = Unhandled e, state = st, examples_closed = False\<rparr>
                | Inr get_examples \<Rightarrow>
                    (case enqueue_operation st
                            \<lparr>job_examples = get_examples, job_action = action p, job_name = parsed_name p,
                             job_description = description p, job_input_keys = input_keys p,
                             job_output_keys = output_keys p, job_metadata_keys = metadata_keys p\<rparr> of
                       Inl QueueFull \<Rightarrow>
                         \<lparr>response = Response HTTP_429_TOO_MANY_REQUESTS None, state = st, examples_closed = True\<rparr>
                     | Inl e \<Rightarrow> \<lparr>response = Unhandled e, state = st, examples_closed = False\<rparr>
                     | Inr st' \<Rightarrow> \<lparr>response = Response 200 None, state = st', examples_closed = False\<rparr>))))"

section \<open>Export: the snapshot query of \<open>_get_dataset_download_csv\<close>\<close>

text \<open>
  A decoded \<open>GlobalID\<close>: the type name and the node id, taken as an integer already
  (\<open>int(node_id)\<close>).
\<close>

record global_id =
  type_name :: string
  node_id :: int

record download_request =
  datasetId :: "global_id option"
  datasetVersionId :: "global_id option"

text \<open>The optional clause \<open>dataset_version_id <= max_dataset_version_id\<close>.\<close>

definition below_ceiling :: "int option \<Rightarrow> int \<Rightarrow> bool" where
  "below_ceiling max_dataset_version_id v =
     (case max_dataset_version_id of None \<Rightarrow> True | Some m \<Rightarrow> v \<le> m)"

text \<open>
  The rows of \<open>latest_version\<close> before grouping: revisions joined with their examples,
  restricted to the dataset and, when a version is given, to the versions up to it.
\<close>

definition latest_version_from :: "database \<Rightarrow> int \<Rightarrow> int option \<Rightarrow> dataset_example_revision list" where
  "latest_version_from d did max_dataset_version_id =
     map fst
       (filter (\<lambda>(r, e). example_dataset_id e = did \<and> below_ceiling max_dataset_version_id (dataset_version_id r))
          (concat (map (\<lambda>r. map (\<lambda>e. (r, e))
                                (filter (\<lambda>e. dataset_example_id r = example_id e) (dataset_examples d)))
                       (dataset_example_revisions d))))"

text \<open>
  \<open>rank() over (order by key)\<close> for the row of key \<open>k\<close> among the rows of keys \<open>ks\<close>:
  one more than the number of rows that precede it.
\<close>

definition rank_over :: "int list \<Rightarrow> int \<Rightarrow> int" where
  "rank_over ks k = 1 + int (length (filter (\<lambda>k'. k' < k) ks))"

text \<open>
  The subquery \<open>latest_version\<close>: one row per example id of the rows above, with
  \<open>rank() - 1\<close> over the grouped rows as \<open>example_index\<close> and the greatest version id of
  the group.
\<close>

record latest_version_row =
  lv_dataset_example_id :: int
  lv_example_index :: int
  lv_dataset_version_id :: int

definition latest_version :: "database \<Rightarrow> int \<Rightarrow> int option \<Rightarrow> latest_version_row list" where
  "latest_version d did max_dataset_version_id =
     (let rows = latest_version_from d did max_dataset_version_id;
          ks = remdups (map dataset_example_id rows)
      in map (\<lambda>k. \<lparr>lv_dataset_example_id = k,
                    lv_example_index = rank_over ks k - 1,
                    lv_dataset_version_id =
                      Max (set (map dataset_version_id (filter (\<lambda>r. dataset_example_id r = k) rows)))\<rparr>)
             ks)"

text \<open>
  The statement before its projection: revisions joined with the subquery on example id
  and version id, without the \<open>DELETE\<close> revisions, ordered by example id.
\<close>

definition stmt_rows :: "database \<Rightarrow> int \<Rightarrow> int option \<Rightarrow> (dataset_example_revision \<times> latest_version_row) list" where
  "stmt_rows d did max_dataset_version_id =
     sort_key (\<lambda>(r, s). dataset_example_id r)
       (filter (\<lambda>(r, s). revision_kind r \<noteq> DELETE)
          (concat (map (\<lambda>r. map (\<lambda>s. (r, s))
                                (filter (\<lambda>s. dataset_example_id r = lv_dataset_example_id s
                                              \<and> dataset_version_id r = lv_dataset_version_id s)
                                        (latest_version d did max_dataset_version_id)))
                       (dataset_example_revisions d))))"

definition stmt :: "database \<Rightarrow> int \<Rightarrow> int option \<Rightarrow> (document \<times> document \<times> document \<times> int) list" where
  "stmt d did max_dataset_version_id =
     map (\<lambda>(r, s). (rev_input r, rev_output r, rev_metadata r, lv_example_index s))
         (stmt_rows d did max_dataset_version_id)"

text \<open>The record built for one row: \<open>{**metadata, **input, **output, "__example_index__": example_index}\<close>.\<close>

definition example_record :: "document \<times> document \<times> document \<times> int \<Rightarrow> document" where
  "example_record row =
     (case row of (inp, outp, metadata, example_index) \<Rightarrow>
        (metadata ++ inp ++ outp)(''__example_index__'' \<mapsto> JNum example_index))"

text \<open>\<open>session.scalar(select(Dataset.name).where(Dataset.id == dataset_id))\<close>\<close>

definition select_dataset_name :: "database \<Rightarrow> int \<Rightarrow> string option" where
  "select_dataset_name d did =
     (case filter (\<lambda>x. dataset_id x = did) (datasets d) of
        [] \<Rightarrow> None
      | x # _ \<Rightarrow> Some (dataset_name x))"

text \<open>
  The database driver binds a Python integer as a signed 64-bit integer; the execution
  of a statement with a parameter outside that range raises \<open>OverflowError\<close>.
\<close>

definition int64 :: "int \<Rightarrow> bool" where
  "int64 n = (- (2 ^ 63) \<le> n \<and> n < 2 ^ 63)"

text \<open>
  \<open>_get_dataset_download_csv\<close>, up to the records handed to the CSV writer. The query for
  the dataset name is executed first, with the dataset id as parameter; the statement is
  executed when the dataset has a name, with the dataset id and the version id as
  parameters. The handler catches no exception.
\<close>

definition get_dataset_download_csv :: "database \<Rightarrow> download_request \<Rightarrow> response" where
  "get_dataset_download_csv d request =
     (case datasetId request of
        None \<Rightarrow> Response HTTP_422_UNPROCESSABLE_ENTITY (Some MissingDatasetID)
      | Some dataset_global_id \<Rightarrow>
          if type_name dataset_global_id \<noteq> ''Dataset''
          then Response HTTP_422_UNPROCESSABLE_ENTITY (Some InvalidDatasetID)
          else if (case datasetVersionId request of
                     None \<Rightarrow> False
                   | Some v \<Rightarrow> type_name v \<noteq> ''DatasetVersion'')
          then Response HTTP_422_UNPROCESSABLE_ENTITY (Some InvalidDatasetVersionID)
          else if \<not> int64 (node_id dataset_global_id) then Unhandled OverflowError
          else
            (case or_else (select_dataset_name d (node_id dataset_global_id)) None of
               None \<Rightarrow> Response HTTP_404_NOT_FOUND (Some DatasetDoesNotExist)
             | Some nm \<Rightarrow>
                 if (case datasetVersionId request of
                       None \<Rightarrow> False
                     | Some v \<Rightarrow> \<not> int64 (node_id v))
                 then Unhandled OverflowError
                 else
                   (let examples = map example_record
                          (stmt d (node_id dataset_global_id) (map_option node_id (datasetVersionId request)))
                    in case examples of
                         [] \<Rightarrow> Response HTTP_404_NOT_FOUND (Some (DatasetHasNoExamples nm))
                       | _ # _ \<Rightarrow> CsvAttachment nm examples)))"


section \<open>Evaluations: \<open>upsert_experiment_evaluation\<close>\<close>

text \<open>
  The JSON payload of the request, with the keys the handler requires present; the times
  are the strings sent, which the handler parses.
\<close>

record evaluation_result =
  result_label :: "string option"
  result_score :: "real option"
  result_explanation :: "string option"

record evaluation_payload =
  payload_experiment_run_id :: global_id
  payload_name :: string
  payload_annotator_kind :: string
  payload_result :: "evaluation_result option"
  payload_error :: "string option"
  payload_metadata :: "document option"
  payload_start_time :: string
  payload_end_time :: string
  payload_trace_id :: "string option"

text \<open>The columns of the constraint \<open>uq_experiment_run_annotations_experiment_run_id_name\<close>.\<close>

definition constraint_key :: "'a annotation_values_scheme \<Rightarrow> int \<times> string" where
  "constraint_key v = (experiment_run_id v, name v)"

text \<open>The row that stores the given values under an id.\<close>

definition stored :: "annotation_values \<Rightarrow> int \<Rightarrow> experiment_run_annotation" where
  "stored v i = annotation_values.extend v (experiment_run_annotation.fields i)"

text \<open>The id given to a new row: one more than the greatest id in the table.\<close>

definition next_annotation_id :: "experiment_run_annotation list \<Rightarrow> int" where
  "next_annotation_id table = fold max (map annotation_id table) 0 + 1"

text \<open>
  Modelled from the spec: \<open>insert_on_conflict\<close> of \<open>phoenix.db.insertion.helpers\<close> is not
  in the sources. On first write for a constraint key it inserts the insert values; on a
  key collision it applies the update values to the existing row; it returns the
  resulting row (\<open>returning\<close>), here together with the table.
\<close>

definition insert_on_conflict ::
  "experiment_run_annotation list \<Rightarrow> annotation_values \<Rightarrow> annotation_values
     \<Rightarrow> experiment_run_annotation list \<times> experiment_run_annotation" where
  "insert_on_conflict table insert_values update_values =
     (case filter (\<lambda>row. constraint_key row = constraint_key insert_values) table of
        [] \<Rightarrow>
          (table @ [stored insert_values (next_annotation_id table)],
           stored insert_values (next_annotation_id table))
      | existing # _ \<Rightarrow>
          (map (\<lambda>row. if constraint_key row = constraint_key insert_values
                       then stored update_values (annotation_id row) else row) table,
           stored update_values (annotation_id existing)))"

text \<open>
  The \<open>values\<close> dictionary that the handler builds from the payload and the two parsed
  times.
\<close>

definition payload_values :: "evaluation_payload \<Rightarrow> datetime \<Rightarrow> datetime \<Rightarrow> annotation_values" where
  "payload_values payload start_t end_t =
     \<lparr>experiment_run_id = node_id (payload_experiment_run_id payload),
      name = payload_name payload,
      annotator_kind = payload_annotator_kind payload,
      label = (case payload_result payload of None \<Rightarrow> None | Some r \<Rightarrow> result_label r),
      score = (case payload_result payload of None \<Rightarrow> None | Some r \<Rightarrow> result_score r),
      explanation = (case payload_result payload of None \<Rightarrow> None | Some r \<Rightarrow> result_explanation r),
      error = payload_error payload,
      annotation_metadata = (case payload_metadata payload of None \<Rightarrow> Map.empty | Some m \<Rightarrow> m),
      start_time = start_t,
      end_time = end_t,
      trace_id = payload_trace_id payload\<rparr>"

text \<open>
  The handler, with \<open>datetime.fromisoformat\<close> as a parameter: 404 when the global id is
  not that of an \<open>ExperimentRun\<close>; then the start time and the end time are parsed, and
  the \<open>ValueError\<close> of a malformed time is caught by nothing, so that nothing is stored.
  The statement is then executed. Modelled from the spec: the table declaration of
  \<open>phoenix.db.models\<close> is not in the sources; evaluations attach to existing run records,
  so the storage refuses a row whose run does not exist (\<open>IntegrityError\<close>), and a run id
  that the driver cannot bind raises \<open>OverflowError\<close>. Otherwise the upsert is done with
  \<open>set_\<close> holding the same values as \<open>values\<close>, and the stored row is the answer.
\<close>

definition upsert_experiment_evaluation ::
  "(string \<Rightarrow> py_exception + datetime) \<Rightarrow> database \<Rightarrow> evaluation_payload \<Rightarrow> response \<times> database" where
  "upsert_experiment_evaluation fromisoformat d payload =
     (if type_name (payload_experiment_run_id payload) \<noteq> ''ExperimentRun''
      then (Response HTTP_404_NOT_FOUND (Some ExperimentRunDoesNotExist), d)
      else
        (case fromisoformat (payload_start_time payload) of
           Inl e \<Rightarrow> (Unhandled e, d)
         | Inr start_t \<Rightarrow>
             (case fromisoformat (payload_end_time payload) of
                Inl e \<Rightarrow> (Unhandled e, d)
              | Inr end_t \<Rightarrow>
                  (let vals = payload_values payload start_t end_t;
                       set_values = vals
                   in if \<not> int64 (experiment_run_id vals) then (Unhandled OverflowError, d)
                      else if experiment_run_id vals \<notin> set (experiment_runs d)
                      then (Unhandled IntegrityError, d)
                      else
                        (case insert_on_conflict (experiment_run_annotations d) vals set_values of
                           (table, exp_eval_run) \<Rightarrow>
                             (EvaluationJSON exp_eval_run, d\<lparr>experiment_run_annotations := table\<rparr>))))))"

section \<open>Vocabulary of the properties\<close>

text \<open>
  The text that \<open>_process_csv\<close> hands to \<open>csv.DictReader\<close>: the content, decompressed as
  the encoding says, then decoded.
\<close>

definition decoded_text :: "env \<Rightarrow> bytes \<Rightarrow> FileContentEncoding \<Rightarrow> py_exception + string" where
  "decoded_text env content enc =
     (case (case enc of
              GZIP \<Rightarrow> gzip_decompress env content
            | DEFLATE \<Rightarrow> zlib_decompress env content
            | NONE \<Rightarrow> Inr content) of
        Inl e \<Rightarrow> Inl e
      | Inr content' \<Rightarrow> bytes_decode env content')"

text \<open>The job that \<open>post_datasets_upload\<close> submits for a parsed form and its examples.\<close>

definition job_of :: "parsed_form \<Rightarrow> examples \<Rightarrow> job" where
  "job_of p get_examples =
     \<lparr>job_examples = get_examples, job_action = action p, job_name = parsed_name p,
      job_description = description p, job_input_keys = input_keys p,
      job_output_keys = output_keys p, job_metadata_keys = metadata_keys p\<rparr>"

subsection \<open>A plain environment for concrete runs\<close>

text \<open>
  Headers without quoting, split at commas; ASCII text; no decompressor and no Arrow
  reader installed; the actions \<open>create\<close> and \<open>append\<close>.
\<close>

fun split_on :: "char \<Rightarrow> string \<Rightarrow> string list" where
  "split_on d [] = [[]]"
| "split_on d (c # cs) =
     (if c = d then [] # split_on d cs
      else (case split_on d cs of w # ws \<Rightarrow> (c # w) # ws | [] \<Rightarrow> [[c]]))"

definition plain_fieldnames :: "string \<Rightarrow> py_exception + string list option" where
  "plain_fieldnames t =
     (if t = [] then Inr None
      else if takeWhile (\<lambda>c. c \<noteq> CHR 0x0A) t = [] then Inr (Some [])
      else Inr (Some (split_on (CHR '','') (takeWhile (\<lambda>c. c \<noteq> CHR 0x0A) t))))"

definition plain_env :: env where
  "plain_env =
     \<lparr>gzip_decompress = (\<lambda>b. Inl (OtherError ''BadGzipFile'')),
      zlib_decompress = (\<lambda>b. Inl (OtherError ''zlib.error'')),
      bytes_decode = (\<lambda>b. if isascii b then Inr b else Inl (ValueError (LibraryMessage ''UnicodeDecodeError''))),
      DictReader_fieldnames = plain_fieldnames,
      pa_ipc_open_stream = (\<lambda>b. Inl ArrowInvalid),
      DatasetAction = (\<lambda>v. if v = ''create'' then Inr DatasetAction_CREATE
                             else if v = ''append'' then Inr DatasetAction_APPEND
                             else Inl (ValueError (LibraryMessage v))),
      stack_depth = 100\<rparr>"

definition empty_database :: database where
  "empty_database =
     \<lparr>datasets = [], dataset_versions = [], dataset_examples = [],
      dataset_example_revisions = [], experiment_runs = [], experiment_run_annotations = []\<rparr>"

definition qa_form :: "string \<Rightarrow> string option \<Rightarrow> string option \<Rightarrow> form_data" where
  "qa_form content ct ce =
     \<lparr>form_name = Some ''qa-v1'', form_action = None,
      form_file = Some (FormUpload \<lparr>filename = Some ''qa.csv'', content_type = ct,
                                    content_encoding = ce, file_content = content\<rparr>),
      form_description = None, form_input_keys = [''q''], form_output_keys = [''a''],
      form_metadata_keys = [''tag'']\<rparr>"

definition qa_parsed :: "string \<Rightarrow> string option \<Rightarrow> string option \<Rightarrow> parsed_form" where
  "qa_parsed content ct ce =
     \<lparr>action = DatasetAction_CREATE, parsed_name = ''qa-v1'', description = Some ''qa.csv'',
      input_keys = {''q''}, output_keys = {''a''}, metadata_keys = {''tag''},
      uploaded = \<lparr>filename = Some ''qa.csv'', content_type = ct, content_encoding = ce,
                  file_content = content\<rparr>\<rparr>"

definition idle_state :: "nat \<Rightarrow> app_state" where
  "idle_state maxsize = \<lparr>read_only = False, db = empty_database, queue = [], queue_maxsize = maxsize\<rparr>"

text \<open>The three role sets share no column name.\<close>

definition pairwise_disjoint :: "string set \<Rightarrow> string set \<Rightarrow> string set \<Rightarrow> bool" where
  "pairwise_disjoint ik ok mk = (ik \<inter> ok = {} \<and> ik \<inter> mk = {} \<and> ok \<inter> mk = {})"

definition qa_csv :: string where
  "qa_csv = ''q,a,tag'' @ [CHR 0x0A] @ ''why,because,x''"

definition busy_state :: app_state where
  "busy_state =
     \<lparr>read_only = False, db = empty_database,
      queue = [job_of (qa_parsed qa_csv (Some ''text/csv'') None) (CsvReader qa_csv)],
      queue_maxsize = 1\<rparr>"

subsection \<open>Vocabulary of the snapshot\<close>

text \<open>The example belongs to the dataset.\<close>

definition in_dataset :: "database \<Rightarrow> int \<Rightarrow> int \<Rightarrow> bool" where
  "in_dataset d did k = (\<exists>e \<in> set (dataset_examples d). example_id e = k \<and> example_dataset_id e = did)"

text \<open>The revisions of an example whose version id is within the ceiling.\<close>

definition qualifying :: "database \<Rightarrow> int option \<Rightarrow> int \<Rightarrow> dataset_example_revision list" where
  "qualifying d c k =
     filter (\<lambda>r. dataset_example_id r = k \<and> below_ceiling c (dataset_version_id r))
            (dataset_example_revisions d)"

text \<open>
  Following the spec's words: the revision selected for an example is its revision with
  the greatest version id within the ceiling.
\<close>

definition selected :: "database \<Rightarrow> int option \<Rightarrow> int \<Rightarrow> dataset_example_revision \<Rightarrow> bool" where
  "selected d c k r =
     (r \<in> set (qualifying d c k)
      \<and> (\<forall>r' \<in> set (qualifying d c k). dataset_version_id r' \<le> dataset_version_id r))"

text \<open>An example is tombstoned at a ceiling when its selected revision is a \<open>DELETE\<close>.\<close>

definition tombstoned :: "database \<Rightarrow> int option \<Rightarrow> int \<Rightarrow> bool" where
  "tombstoned d c k =
     (\<exists>r \<in> set (dataset_example_revisions d). selected d c k r \<and> revision_kind r = DELETE)"

text \<open>The invariant of the log: no two revisions of an example share a version id.\<close>

definition unique_versions :: "database \<Rightarrow> bool" where
  "unique_versions d =
     distinct (map (\<lambda>r. (dataset_example_id r, dataset_version_id r)) (dataset_example_revisions d))"

text \<open>The example ids of the rows that the statement returns, in its order.\<close>

definition snapshot_example_ids :: "database \<Rightarrow> int \<Rightarrow> int option \<Rightarrow> int list" where
  "snapshot_example_ids d did c = map (\<lambda>(r, s). dataset_example_id r) (stmt_rows d did c)"

text \<open>The examples of the dataset that have a revision within the ceiling.\<close>

definition qualifying_examples :: "database \<Rightarrow> int \<Rightarrow> int option \<Rightarrow> int set" where
  "qualifying_examples d did c =
     set (filter (\<lambda>k. in_dataset d did k \<and> qualifying d c k \<noteq> [])
                 (map example_id (dataset_examples d)))"

text \<open>The zero-based rank of an example id among the qualifying examples.\<close>

definition example_index_at :: "database \<Rightarrow> int \<Rightarrow> int option \<Rightarrow> int \<Rightarrow> int" where
  "example_index_at d did c k = int (card {k' \<in> qualifying_examples d did c. k' < k})"

definition max_version :: "database \<Rightarrow> int option \<Rightarrow> int \<Rightarrow> int" where
  "max_version d c k = Max (set (map dataset_version_id (qualifying d c k)))"

definition lv_row :: "database \<Rightarrow> int \<Rightarrow> int option \<Rightarrow> int \<Rightarrow> latest_version_row" where
  "lv_row d did c k =
     \<lparr>lv_dataset_example_id = k,
      lv_example_index = example_index_at d did c k,
      lv_dataset_version_id = max_version d c k\<rparr>"

text \<open>A revision that the statement keeps: selected for its example, and not a \<open>DELETE\<close>.\<close>

definition survives :: "database \<Rightarrow> int \<Rightarrow> int option \<Rightarrow> dataset_example_revision \<Rightarrow> bool" where
  "survives d did c r =
     (dataset_example_id r \<in> qualifying_examples d did c
      \<and> dataset_version_id r = max_version d c (dataset_example_id r)
      \<and> revision_kind r \<noteq> DELETE)"

definition example_indices :: "(document \<times> document \<times> document \<times> int) list \<Rightarrow> int list" where
  "example_indices rows = map (\<lambda>(inp, outp, metadata, example_index). example_index) rows"

text \<open>What the records of a response carry under \<open>__example_index__\<close>.\<close>

definition response_indices :: "response \<Rightarrow> json option list" where
  "response_indices resp =
     (case resp of
        CsvAttachment nm records \<Rightarrow> map (\<lambda>r. r ''__example_index__'') records
      | _ \<Rightarrow> [])"




subsection \<open>A database for concrete runs\<close>

text \<open>
  Dataset 1 has three examples created at version 1; example 2 is deleted at version 2
  and patched again at version 3. Version 4 and example 4 belong to dataset 2.
\<close>

definition revision :: "int \<Rightarrow> int \<Rightarrow> revision_kind \<Rightarrow> string \<Rightarrow> string \<Rightarrow> string \<Rightarrow> dataset_example_revision" where
  "revision k v kind q a tag =
     \<lparr>dataset_example_id = k, dataset_version_id = v, revision_kind = kind,
      rev_input = [''q'' \<mapsto> JStr q], rev_output = [''a'' \<mapsto> JStr a],
      rev_metadata = [''tag'' \<mapsto> JStr tag]\<rparr>"

definition tombstone :: "int \<Rightarrow> int \<Rightarrow> dataset_example_revision" where
  "tombstone k v =
     \<lparr>dataset_example_id = k, dataset_version_id = v, revision_kind = DELETE,
      rev_input = Map.empty, rev_output = Map.empty, rev_metadata = Map.empty\<rparr>"

definition qa_database :: database where
  "qa_database =
     \<lparr>datasets = [\<lparr>dataset_id = 1, dataset_name = ''qa-v1''\<rparr>, \<lparr>dataset_id = 2, dataset_name = ''other''\<rparr>],
      dataset_versions =
        [\<lparr>version_id = 1, version_dataset_id = 1\<rparr>, \<lparr>version_id = 2, version_dataset_id = 1\<rparr>,
         \<lparr>version_id = 3, version_dataset_id = 1\<rparr>, \<lparr>version_id = 4, version_dataset_id = 2\<rparr>],
      dataset_examples =
        [\<lparr>example_id = 1, example_dataset_id = 1\<rparr>, \<lparr>example_id = 2, example_dataset_id = 1\<rparr>,
         \<lparr>example_id = 3, example_dataset_id = 1\<rparr>, \<lparr>example_id = 4, example_dataset_id = 2\<rparr>],
      dataset_example_revisions =
        [revision 1 1 CREATE ''q1'' ''a1'' ''x'', revision 2 1 CREATE ''q2'' ''a2'' ''y'',
         revision 3 1 CREATE ''q3'' ''a3'' ''z'', tombstone 2 2,
         revision 2 3 PATCH ''q2'' ''a2 again'' ''y'', revision 4 4 CREATE ''q4'' ''a4'' ''w''],
      experiment_runs = [], experiment_run_annotations = []\<rparr>"

definition download :: "int \<Rightarrow> int option \<Rightarrow> download_request" where
  "download did v =
     \<lparr>datasetId = Some \<lparr>type_name = ''Dataset'', node_id = did\<rparr>,
      datasetVersionId = map_option (\<lambda>n. \<lparr>type_name = ''DatasetVersion'', node_id = n\<rparr>) v\<rparr>"

subsection \<open>Vocabulary of the upsert\<close>

text \<open>The uniqueness constraint holds in the table.\<close>

definition unique_constraint :: "experiment_run_annotation list \<Rightarrow> bool" where
  "unique_constraint table = distinct (map constraint_key table)"

definition rows_of_key :: "experiment_run_annotation list \<Rightarrow> int \<times> string \<Rightarrow> experiment_run_annotation list" where
  "rows_of_key table k = filter (\<lambda>row. constraint_key row = k) table"

text \<open>The database after a sequence of upsert requests.\<close>

definition run_upserts ::
  "(string \<Rightarrow> py_exception + datetime) \<Rightarrow> database \<Rightarrow> evaluation_payload list \<Rightarrow> database" where
  "run_upserts fromisoformat d payloads =
     fold (\<lambda>payload d'. snd (upsert_experiment_evaluation fromisoformat d' payload)) payloads d"

text \<open>
  A parser for concrete runs: it accepts the form \<open>YYYY-MM-DDTHH:MM:SS\<close> only (the library
  accepts more) and raises \<open>ValueError\<close> otherwise.
\<close>

definition digit_value :: "char \<Rightarrow> nat option" where
  "digit_value c = map_of (zip ''0123456789'' [0, 1, 2, 3, 4, 5, 6, 7, 8, 9]) c"

definition decimal :: "string \<Rightarrow> nat option" where
  "decimal s =
     fold (\<lambda>c acc. case (acc, digit_value c) of
                      (Some n, Some k) \<Rightarrow> Some (10 * n + k)
                    | _ \<Rightarrow> None)
          s (case s of [] \<Rightarrow> None | _ # _ \<Rightarrow> Some 0)"

definition plain_fromisoformat :: "string \<Rightarrow> py_exception + datetime" where
  "plain_fromisoformat s =
     (case (decimal (take 4 s), decimal (take 2 (drop 5 s)), decimal (take 2 (drop 8 s)),
            decimal (take 2 (drop 11 s)), decimal (take 2 (drop 14 s)), decimal (take 2 (drop 17 s))) of
        (Some y, Some m, Some dd, Some h, Some mi, Some sec) \<Rightarrow>
          if length s = 19 \<and> take 1 (drop 4 s) = ''-'' \<and> take 1 (drop 7 s) = ''-''
             \<and> take 1 (drop 10 s) = ''T'' \<and> take 1 (drop 13 s) = '':'' \<and> take 1 (drop 16 s) = '':''
             \<and> 1 \<le> m \<and> m \<le> 12 \<and> 1 \<le> dd \<and> dd \<le> 31 \<and> h < 24 \<and> mi < 60 \<and> sec < 60
          then Inr (Datetime y m dd h mi sec)
          else Inl (ValueError (LibraryMessage s))
      | _ \<Rightarrow> Inl (ValueError (LibraryMessage s)))"

definition evaluation :: "int \<Rightarrow> string \<Rightarrow> real \<Rightarrow> evaluation_payload" where
  "evaluation run nm s =
     \<lparr>payload_experiment_run_id = \<lparr>type_name = ''ExperimentRun'', node_id = run\<rparr>,
      payload_name = nm, payload_annotator_kind = ''CODE'',
      payload_result = Some \<lparr>result_label = None, result_score = Some s, result_explanation = None\<rparr>,
      payload_error = None, payload_metadata = None,
      payload_start_time = ''2024-01-01T00:00:00'', payload_end_time = ''2024-01-01T00:00:01'',
      payload_trace_id = None\<rparr>"

text \<open>A database that holds the experiment run 7 and no evaluation yet.\<close>

definition run_database :: database where
  "run_database = empty_database\<lparr>experiment_runs := [7]\<rparr>"

section \<open>Properties of the upload path\<close>

subsection \<open>Lower-casing and the two enums\<close>

lemma lower_char_idem: "lower_char (lower_char c) = lower_char c"
  by (simp add: lower_char_def ascii_uppercase_def ascii_lowercase_def)

lemma lower_idem: "lower (lower v) = lower v"
  by (simp add: lower_def lower_char_idem)

lemma digit7_lower_char: "digit7 (lower_char c) = digit7 c"
  by (simp add: lower_char_def ascii_uppercase_def ascii_lowercase_def)

lemma isascii_lower: "isascii (lower v) = isascii v"
  by (simp add: isascii_def lower_def digit7_lower_char)

lemma lower_char_neq_upper: "lower_char c \<noteq> c \<Longrightarrow> c \<in> set ascii_uppercase"
  by (simp add: lower_char_def ascii_uppercase_def ascii_lowercase_def split: if_splits)

lemma lower_neq_not_islower: "lower v \<noteq> v \<Longrightarrow> \<not> islower v"
proof -
  assume "lower v \<noteq> v"
  then obtain c where "c \<in> set v" "lower_char c \<noteq> c"
    unfolding lower_def by (metis map_idI)
  then show ?thesis
    using lower_char_neq_upper unfolding islower_def by blast
qed

lemma lower_Nil: "lower v = [] \<longleftrightarrow> v = []"
  by (simp add: lower_def)

lemma ct_member_lower:
  "FileContentType_value2member (Some s) = Some m \<Longrightarrow> lower s = s"
  by (auto simp: FileContentType_value2member_def lower_def lower_char_def
        ascii_uppercase_def ascii_lowercase_def split: if_splits)

lemma ct_member_nonempty_ascii:
  "FileContentType_value2member (Some s) = Some m \<Longrightarrow> s \<noteq> [] \<and> isascii s"
  by (auto simp: FileContentType_value2member_def isascii_def split: if_splits)

lemma ct_not_member_never:
  "FileContentType_value2member (Some (lower v)) = None \<Longrightarrow>
   FileContentType_new k (Some (lower v)) \<noteq> Inr m"
  by (induction k) (simp_all add: lower_idem)

lemma ct_accepts_iff:
  "FileContentType_new (Suc (Suc n)) (Some v) = Inr m \<longleftrightarrow>
   FileContentType_value2member (Some (lower v)) = Some m"
proof (cases "FileContentType_value2member (Some v)")
  case (Some m')
  then show ?thesis using ct_member_lower [OF Some] by auto
next
  case None
  show ?thesis
  proof (cases "FileContentType_value2member (Some (lower v))")
    case n2: None
    then show ?thesis
      using None ct_not_member_never [OF n2, of "Suc n" m] by simp
  next
    case (Some m')
    from Some None have neq: "lower v \<noteq> v" by auto
    have "v \<noteq> []" "isascii v"
      using ct_member_nonempty_ascii [OF Some] by (simp_all add: lower_Nil isascii_lower)
    moreover have "\<not> islower v" using neq by (rule lower_neq_not_islower)
    ultimately show ?thesis using None Some by simp
  qed
qed

lemma ce_member_lower:
  "FileContentEncoding_value2member (Some s) = Some m \<Longrightarrow> lower s = s"
  by (auto simp: FileContentEncoding_value2member_def lower_def lower_char_def
        ascii_uppercase_def ascii_lowercase_def split: if_splits)

lemma ce_member_nonempty_ascii:
  "FileContentEncoding_value2member (Some s) = Some m \<Longrightarrow> s \<noteq> [] \<and> isascii s"
  by (auto simp: FileContentEncoding_value2member_def isascii_def split: if_splits)

lemma ce_not_member_never:
  "FileContentEncoding_value2member (Some (lower v)) = None \<Longrightarrow>
   FileContentEncoding_new k (Some (lower v)) \<noteq> Inr m"
  by (induction k) (simp_all add: lower_idem)

lemma ce_accepts_iff:
  "FileContentEncoding_new (Suc (Suc n)) (Some v) = Inr m \<longleftrightarrow>
   FileContentEncoding_value2member (Some (lower v)) = Some m"
proof (cases "FileContentEncoding_value2member (Some v)")
  case (Some m')
  then show ?thesis using ce_member_lower [OF Some] by auto
next
  case None
  show ?thesis
  proof (cases "FileContentEncoding_value2member (Some (lower v))")
    case n2: None
    then show ?thesis
      using None ce_not_member_never [OF n2, of "Suc n" m] by simp
  next
    case (Some m')
    from Some None have neq: "lower v \<noteq> v" by auto
    have "v \<noteq> []" "isascii v"
      using ce_member_nonempty_ascii [OF Some] by (simp_all add: lower_Nil isascii_lower)
    moreover have "\<not> islower v" using neq by (rule lower_neq_not_islower)
    ultimately show ?thesis using None Some by simp
  qed
qed

lemma ce_None: "FileContentEncoding_new (Suc (Suc n)) None = Inr NONE"
  by (simp add: FileContentEncoding_value2member_def)

lemma ce_none: "FileContentEncoding_new (Suc n) (Some ''none'') = Inr NONE"
  by (simp add: FileContentEncoding_value2member_def)

lemma ct_caseless_recursion:
  "FileContentType_new n (Some ''123'') = Inl RecursionError"
  by (induction n) (simp_all add: FileContentType_value2member_def isascii_def islower_def lower_def lower_char_def ascii_uppercase_def ascii_lowercase_def)

lemma ce_caseless_recursion:
  "FileContentEncoding_new n (Some ''123'') = Inl RecursionError"
  by (induction n) (simp_all add: FileContentEncoding_value2member_def isascii_def islower_def lower_def lower_char_def ascii_uppercase_def ascii_lowercase_def)

lemma ct_accepts_ge2:
  "2 \<le> d \<Longrightarrow> FileContentType_new d (Some v) = Inr m \<longleftrightarrow>
     FileContentType_value2member (Some (lower v)) = Some m"
proof -
  assume "2 \<le> d"
  then obtain n where "d = Suc (Suc n)" by (metis add_2_eq_Suc le_Suc_ex)
  then show ?thesis by (simp only: ct_accepts_iff)
qed

lemma ce_accepts_ge2:
  "2 \<le> d \<Longrightarrow> FileContentEncoding_new d (Some v) = Inr m \<longleftrightarrow>
     FileContentEncoding_value2member (Some (lower v)) = Some m"
proof -
  assume "2 \<le> d"
  then obtain n where "d = Suc (Suc n)" by (metis add_2_eq_Suc le_Suc_ex)
  then show ?thesis by (simp only: ce_accepts_iff)
qed

lemma ce_None_ge2: "2 \<le> d \<Longrightarrow> FileContentEncoding_new d None = Inr NONE"
proof -
  assume "2 \<le> d"
  then obtain n where "d = Suc (Suc n)" by (metis add_2_eq_Suc le_Suc_ex)
  then show ?thesis by (simp only: ce_None)
qed

subsection \<open>The counter of the header names\<close>

lemma map_of_increment:
  "map_of (increment x c) = (map_of c)(x \<mapsto> (case map_of c x of None \<Rightarrow> 1 | Some n \<Rightarrow> Suc n))"
  by (induction x c rule: increment.induct) (auto simp: fun_eq_iff)

lemma fst_set_increment: "fst ` set (increment x c) = insert x (fst ` set c)"
  by (induction x c rule: increment.induct) auto

lemma distinct_increment:
  "distinct (map fst c) \<Longrightarrow> distinct (map fst (increment x c))"
proof (induction x c rule: increment.induct)
  case (1 x)
  then show ?case by simp
next
  case (2 x k n c)
  then show ?case
    using fst_set_increment [of x c] by (auto simp: image_iff) 
qed

lemma Counter_snoc: "Counter (xs @ [x]) = increment x (Counter xs)"
  by (simp add: Counter_def)

lemma map_of_Counter:
  "map_of (Counter xs) k = (if k \<in> set xs then Some (count_list xs k) else None)"
proof (induction xs rule: rev_induct)
  case Nil
  then show ?case by (simp add: Counter_def)
next
  case (snoc x xs)
  then show ?case
    by (auto simp: Counter_snoc map_of_increment)
qed

lemma distinct_Counter: "distinct (map fst (Counter xs))"
proof (induction xs rule: rev_induct)
  case Nil
  then show ?case by (simp add: Counter_def)
next
  case (snoc x xs)
  then show ?case by (simp add: Counter_snoc distinct_increment)
qed

lemma Counter_member:
  "(k, n) \<in> set (Counter xs) \<longleftrightarrow> k \<in> set xs \<and> n = count_list xs k"
  using map_of_eq_Some_iff [OF distinct_Counter, of xs k n] map_of_Counter [of xs k]
  by (auto split: if_splits)

lemma Counter_Nil_iff: "Counter xs = [] \<longleftrightarrow> xs = []"
proof
  assume "Counter xs = []"
  then have "\<forall>k n. (k, n) \<notin> set (Counter xs)" by simp
  then show "xs = []" unfolding Counter_member by (cases xs) auto
qed (simp add: Counter_def)

lemma fold_best:
  "fold (\<lambda>y best. if snd best < snd y then y else best) xs b \<in> set (b # xs) \<and>
   (\<forall>y \<in> set (b # xs). snd y \<le> snd (fold (\<lambda>y best. if snd best < (snd y :: nat) then y else best) xs b))"
proof (induction xs arbitrary: b)
  case Nil
  then show ?case by simp
next
  case (Cons x xs)
  show ?case
    using Cons.IH [of "if snd b < snd x then x else b"] by (auto split: if_splits)
qed

lemma most_common_1_cases:
  obtains "c = []" "most_common_1 c = []"
  | b where "most_common_1 c = [b]" "b \<in> set c" "\<forall>y \<in> set c. snd y \<le> snd b"
proof (cases c)
  case Nil
  then show ?thesis using that(1) by simp
next
  case (Cons x xs)
  then show ?thesis using that(2) fold_best [of xs x] by simp
qed

lemma not_distinct_count: "\<not> distinct xs \<Longrightarrow> \<exists>x \<in> set xs. 1 < count_list xs x"
proof (induction xs)
  case Nil
  then show ?case by simp
next
  case (Cons a xs)
  show ?case
  proof (cases "a \<in> set xs")
    case True
    then have "count_list xs a \<noteq> 0" by (simp add: count_list_0_iff)
    then have "0 < count_list xs a" by simp
    then show ?thesis by auto
  next
    case False
    with Cons obtain x where x: "x \<in> set xs" "1 < count_list xs x" by auto
    with False have "x \<noteq> a" by auto
    with x have "x \<in> set (a # xs)" "1 < count_list (a # xs) x" by simp_all
    then show ?thesis by blast
  qed
qed

lemma distinct_count_le: "distinct xs \<Longrightarrow> count_list xs x \<le> 1"
  by (induction xs) (auto simp: count_list_0_iff)

lemma most_common_Counter:
  assumes "fs \<noteq> []"
  obtains h where "most_common_1 (Counter fs) = [(h, count_list fs h)]" "h \<in> set fs"
    "\<forall>x. count_list fs x \<le> count_list fs h"
proof (rule most_common_1_cases [of "Counter fs"])
  assume "Counter fs = []"
  with assms show thesis by (simp add: Counter_Nil_iff)
next
  fix b
  assume b: "most_common_1 (Counter fs) = [b]" "b \<in> set (Counter fs)"
    "\<forall>y \<in> set (Counter fs). snd y \<le> snd b"
  obtain h n where hn: "b = (h, n)" by (cases b)
  with b(2) have h: "h \<in> set fs" "n = count_list fs h" by (simp_all add: Counter_member)
  have "count_list fs x \<le> count_list fs h" for x
  proof (cases "x \<in> set fs")
    case True
    then have "(x, count_list fs x) \<in> set (Counter fs)" by (simp add: Counter_member)
    with b(3) hn h show ?thesis by fastforce
  next
    case False
    then show ?thesis by (simp add: count_list_0_iff)
  qed
  with that b(1) hn h show thesis by blast
qed

subsection \<open>Header validation of the CSV decoder\<close>

lemma process_csv_decoded:
  "process_csv env content enc =
     (case decoded_text env content enc of
        Inl e \<Rightarrow> Inl e
      | Inr text \<Rightarrow>
          (case DictReader_fieldnames env text of
             Inl e \<Rightarrow> Inl e
           | Inr None \<Rightarrow> Inl (ValueError MissingCSVColumnHeader)
           | Inr (Some fieldnames) \<Rightarrow>
               (case most_common_1 (Counter fieldnames) of
                  [] \<Rightarrow> Inl (ValueError NotEnoughValuesToUnpack)
                | (header, freq) # _ \<Rightarrow>
                    if 1 < freq then Inl (ValueError (DuplicatedColumnHeader header))
                    else Inr (CsvReader text, set fieldnames))))"
  by (simp add: process_csv_def decoded_text_def split: sum.splits)

lemma process_csv_no_header:
  assumes "decoded_text env content enc = Inr text" "DictReader_fieldnames env text = Inr None"
  shows "process_csv env content enc = Inl (ValueError MissingCSVColumnHeader)"
  using assms by (simp add: process_csv_decoded)

lemma process_csv_empty_header:
  assumes "decoded_text env content enc = Inr text" "DictReader_fieldnames env text = Inr (Some [])"
  shows "process_csv env content enc = Inl (ValueError NotEnoughValuesToUnpack)"
  using assms by (simp add: process_csv_decoded Counter_def)

lemma process_csv_duplicate:
  assumes "decoded_text env content enc = Inr text" "DictReader_fieldnames env text = Inr (Some fs)"
    "\<not> distinct fs"
  shows "\<exists>h. process_csv env content enc = Inl (ValueError (DuplicatedColumnHeader h)) \<and> 1 < count_list fs h"
proof -
  from assms(3) have "fs \<noteq> []" by auto
  then obtain h where h: "most_common_1 (Counter fs) = [(h, count_list fs h)]"
    "\<forall>x. count_list fs x \<le> count_list fs h"
    by (rule most_common_Counter)
  from not_distinct_count [OF assms(3)] obtain x where "1 < count_list fs x" by blast
  with h(2) have "1 < count_list fs h" by (meson less_le_trans)
  with h(1) assms(1,2) show ?thesis by (simp add: process_csv_decoded)
qed

lemma process_csv_distinct:
  assumes "decoded_text env content enc = Inr text" "DictReader_fieldnames env text = Inr (Some fs)"
    "distinct fs" "fs \<noteq> []"
  shows "process_csv env content enc = Inr (CsvReader text, set fs)"
proof -
  obtain h where h: "most_common_1 (Counter fs) = [(h, count_list fs h)]"
    using assms(4) by (rule most_common_Counter)
  have "\<not> 1 < count_list fs h" using distinct_count_le [OF assms(3), of h] by simp
  with h assms(1,2) show ?thesis by (simp add: process_csv_decoded)
qed

lemma upload_rejected_422:
  assumes "\<not> read_only st" "parse_form_data env form = Inr p"
    "\<not> (action p = DatasetAction_CREATE \<and> check_table_exists (db st) (parsed_name p))"
    "decode_upload env p = Inl (ValueError m)"
  shows "post_datasets_upload env st form =
     \<lparr>response = Response HTTP_422_UNPROCESSABLE_ENTITY (Some m), state = st, examples_closed = False\<rparr>"
  using assms by (auto simp add: post_datasets_upload_def)

lemma decode_upload_csv:
  assumes "FileContentType_new (stack_depth env) (content_type (uploaded p)) = Inr CSV"
    "FileContentEncoding_new (stack_depth env) (content_encoding (uploaded p)) = Inr enc"
    "process_csv env (file_content (uploaded p)) enc = Inl e"
  shows "decode_upload env p = Inl e"
  using assms by (simp add: decode_upload_def)

lemma parse_qa_form:
  "parse_form_data plain_env (qa_form content ct ce) = Inr (qa_parsed content ct ce)"
  by (simp add: parse_form_data_def qa_form_def qa_parsed_def plain_env_def or_else_def or_default_def)

lemma plain_stack: "2 \<le> stack_depth plain_env"
  by (simp add: plain_env_def)

text \<open>
  Claim C6. A CSV upload that reaches the decoder and whose text has no header row, or a
  header in which some column name occurs more than once, is rejected by \<open>_process_csv\<close>
  with a \<open>ValueError\<close>: "Missing CSV column header" when there is no first row, the
  failed unpacking of \<open>most_common(1)\<close> when the first row is empty, and "Duplicated
  column header" naming a column that occurs more than once. The handler answers 422
  with that message and leaves the application state as it was: nothing is enqueued and
  the database is untouched.
\<close>

theorem csv_header_rejected:
  assumes "\<not> read_only st"
    and "parse_form_data env form = Inr p"
    and "\<not> (action p = DatasetAction_CREATE \<and> check_table_exists (db st) (parsed_name p))"
    and "FileContentType_new (stack_depth env) (content_type (uploaded p)) = Inr CSV"
    and "FileContentEncoding_new (stack_depth env) (content_encoding (uploaded p)) = Inr enc"
    and "decoded_text env (file_content (uploaded p)) enc = Inr text"
    and "DictReader_fieldnames env text = Inr fieldnames"
    and "fieldnames = None \<or> (\<exists>fs. fieldnames = Some fs \<and> (fs = [] \<or> \<not> distinct fs))"
  shows "\<exists>m. process_csv env (file_content (uploaded p)) enc = Inl (ValueError m)
           \<and> (case fieldnames of
                 None \<Rightarrow> m = MissingCSVColumnHeader
               | Some fs \<Rightarrow>
                   (fs = [] \<and> m = NotEnoughValuesToUnpack)
                   \<or> (\<exists>h. m = DuplicatedColumnHeader h \<and> 1 < count_list fs h))
           \<and> post_datasets_upload env st form =
               \<lparr>response = Response HTTP_422_UNPROCESSABLE_ENTITY (Some m), state = st,
                examples_closed = False\<rparr>"
proof (cases fieldnames)
  case None
  with assms(6,7) have pc: "process_csv env (file_content (uploaded p)) enc = Inl (ValueError MissingCSVColumnHeader)"
    by (simp add: process_csv_no_header)
  from decode_upload_csv [OF assms(4,5) pc] upload_rejected_422 [OF assms(1,2,3)] pc None
  show ?thesis by simp
next
  case (Some fs)
  show ?thesis
  proof (cases "fs = []")
    case True
    with assms(6,7) Some
    have pc: "process_csv env (file_content (uploaded p)) enc = Inl (ValueError NotEnoughValuesToUnpack)"
      by (simp add: process_csv_empty_header)
    from decode_upload_csv [OF assms(4,5) pc] upload_rejected_422 [OF assms(1,2,3)] pc Some True
    show ?thesis by simp
  next
    case False
    with Some assms(8) have "\<not> distinct fs" by simp
    from process_csv_duplicate [OF assms(6) assms(7) [unfolded Some] this]
    obtain h where h: "process_csv env (file_content (uploaded p)) enc = Inl (ValueError (DuplicatedColumnHeader h))"
      "1 < count_list fs h" by blast
    from decode_upload_csv [OF assms(4,5) h(1)] upload_rejected_422 [OF assms(1,2,3)] h Some
    show ?thesis by simp
  qed
qed

theorem csv_header_rejected_witness:
  "\<exists>m. process_csv plain_env (''query,query'' @ [CHR 0x0A] @ ''1,2'') NONE = Inl (ValueError m)
     \<and> (\<exists>h. m = DuplicatedColumnHeader h \<and> 1 < count_list [''query'', ''query''] h)
     \<and> post_datasets_upload plain_env (idle_state 1)
          (qa_form (''query,query'' @ [CHR 0x0A] @ ''1,2'') (Some ''Text/CSV'') None) =
        \<lparr>response = Response HTTP_422_UNPROCESSABLE_ENTITY (Some m), state = idle_state 1,
         examples_closed = False\<rparr>"
proof -
  let ?c = "''query,query'' @ [CHR 0x0A] @ ''1,2''"
  let ?p = "qa_parsed ?c (Some ''Text/CSV'') None"
  have h1: "\<not> read_only (idle_state 1)" by (simp add: idle_state_def)
  have h2: "parse_form_data plain_env (qa_form ?c (Some ''Text/CSV'') None) = Inr ?p"
    by (rule parse_qa_form)
  have h3: "\<not> (action ?p = DatasetAction_CREATE \<and> check_table_exists (db (idle_state 1)) (parsed_name ?p))"
    by (simp add: idle_state_def check_table_exists_def empty_database_def)
  have h4: "FileContentType_new (stack_depth plain_env) (content_type (uploaded ?p)) = Inr CSV"
    by (simp add: ct_accepts_ge2 [OF plain_stack] qa_parsed_def FileContentType_value2member_def
          lower_def lower_char_def ascii_uppercase_def ascii_lowercase_def)
  have h5: "FileContentEncoding_new (stack_depth plain_env) (content_encoding (uploaded ?p)) = Inr NONE"
    by (simp add: ce_None_ge2 [OF plain_stack] qa_parsed_def)
  have h6: "decoded_text plain_env (file_content (uploaded ?p)) NONE = Inr ?c"
    by (simp add: decoded_text_def plain_env_def qa_parsed_def isascii_def)
  have h7: "DictReader_fieldnames plain_env ?c = Inr (Some [''query'', ''query''])"
    by (simp add: plain_env_def plain_fieldnames_def)
  have h8: "Some [''query'', ''query''] = None
      \<or> (\<exists>fs. Some [''query'', ''query''] = Some fs \<and> (fs = [] \<or> \<not> distinct fs))"
    by simp
  from csv_header_rejected [OF h1 h2 h3 h4 h5 h6 h7 h8]
  show ?thesis by (simp add: qa_parsed_def)
qed


subsection \<open>The role keys against the column headers\<close>

lemma check_keys_exist_ok:
  "check_keys_exist cols ik ok mk = Inr () \<longleftrightarrow> ik \<union> ok \<union> mk \<subseteq> cols"
  by (auto simp: check_keys_exist_def)

lemma check_keys_exist_fails:
  assumes "\<not> ik \<union> ok \<union> mk \<subseteq> cols"
  shows "\<exists>desc diff. check_keys_exist cols ik ok mk = Inl (ValueError (KeysNotFound desc diff))
           \<and> diff \<noteq> {} \<and> diff \<subseteq> (ik \<union> ok \<union> mk) - cols"
proof (cases "ik - cols \<noteq> {}")
  case True
  then show ?thesis by (auto simp: check_keys_exist_def)
next
  case ik: False
  show ?thesis
  proof (cases "ok - cols \<noteq> {}")
    case True
    with ik show ?thesis by (auto simp: check_keys_exist_def)
  next
    case False
    with ik assms have "mk - cols \<noteq> {}" by auto
    with ik False show ?thesis by (auto simp: check_keys_exist_def)
  qed
qed

subsection \<open>A well-formed upload, decoded\<close>

lemma qa_csv_text: "decoded_text plain_env qa_csv NONE = Inr qa_csv"
  by (simp add: decoded_text_def plain_env_def qa_csv_def isascii_def)

lemma qa_csv_fieldnames: "DictReader_fieldnames plain_env qa_csv = Inr (Some [''q'', ''a'', ''tag''])"
  by (simp add: plain_env_def plain_fieldnames_def qa_csv_def)

lemma decode_qa_upload:
  "decode_upload plain_env (qa_parsed qa_csv (Some ''text/csv'') None) = Inr (CsvReader qa_csv)"
proof -
  let ?p = "qa_parsed qa_csv (Some ''text/csv'') None"
  have ct: "FileContentType_new (stack_depth plain_env) (content_type (uploaded ?p)) = Inr CSV"
    by (simp add: ct_accepts_ge2 [OF plain_stack] qa_parsed_def FileContentType_value2member_def
          lower_def lower_char_def ascii_uppercase_def ascii_lowercase_def)
  have ce: "FileContentEncoding_new (stack_depth plain_env) (content_encoding (uploaded ?p)) = Inr NONE"
    by (simp add: ce_None_ge2 [OF plain_stack] qa_parsed_def)
  have pc: "process_csv plain_env (file_content (uploaded ?p)) NONE = Inr (CsvReader qa_csv, set [''q'', ''a'', ''tag''])"
    using process_csv_distinct [OF qa_csv_text qa_csv_fieldnames] by (simp add: qa_parsed_def)
  have ck: "check_keys_exist (set [''q'', ''a'', ''tag'']) (input_keys ?p) (output_keys ?p) (metadata_keys ?p) = Inr ()"
    by (simp add: check_keys_exist_ok qa_parsed_def)
  from ct ce pc ck show ?thesis by (simp add: decode_upload_def)
qed


subsection \<open>Admission\<close>

text \<open>
  Claim C5. An upload that passed validation and finds the admission queue at capacity:
  the submission raises \<open>QueueFull\<close> at once, the handler closes the examples and
  answers 429, and the application state is the one before the request: the job is not
  in the queue and the revision log is as it was.
\<close>

theorem queue_full_rejected:
  assumes "\<not> read_only st"
    and "parse_form_data env form = Inr p"
    and "\<not> (action p = DatasetAction_CREATE \<and> check_table_exists (db st) (parsed_name p))"
    and "decode_upload env p = Inr get_examples"
    and "queue_maxsize st \<le> length (queue st)"
  shows "enqueue_operation st (job_of p get_examples) = Inl QueueFull
     \<and> post_datasets_upload env st form =
         \<lparr>response = Response HTTP_429_TOO_MANY_REQUESTS None, state = st, examples_closed = True\<rparr>
     \<and> queue (state (post_datasets_upload env st form)) = queue st
     \<and> dataset_example_revisions (db (state (post_datasets_upload env st form))) =
         dataset_example_revisions (db st)"
  using assms by (auto simp add: post_datasets_upload_def enqueue_operation_def job_of_def)


theorem queue_full_rejected_witness:
  "enqueue_operation busy_state (job_of (qa_parsed qa_csv (Some ''text/csv'') None) (CsvReader qa_csv)) = Inl QueueFull
   \<and> post_datasets_upload plain_env busy_state (qa_form qa_csv (Some ''text/csv'') None) =
       \<lparr>response = Response HTTP_429_TOO_MANY_REQUESTS None, state = busy_state, examples_closed = True\<rparr>"
proof -
  let ?p = "qa_parsed qa_csv (Some ''text/csv'') None"
  have h1: "\<not> read_only busy_state" by (simp add: busy_state_def)
  have h2: "parse_form_data plain_env (qa_form qa_csv (Some ''text/csv'') None) = Inr ?p"
    by (rule parse_qa_form)
  have h3: "\<not> (action ?p = DatasetAction_CREATE \<and> check_table_exists (db busy_state) (parsed_name ?p))"
    by (simp add: busy_state_def check_table_exists_def empty_database_def)
  have h5: "queue_maxsize busy_state \<le> length (queue busy_state)" by (simp add: busy_state_def)
  from queue_full_rejected [OF h1 h2 h3 decode_qa_upload h5] show ?thesis by simp
qed


subsection \<open>Role validation\<close>

lemma parse_form_data_roles:
  assumes "or_else (form_name form) None = Some nm"
    and "DatasetAction env (or_default (form_action form) ''create'') = Inr act"
    and "form_file form = Some (FormUpload f)"
  shows "parse_form_data env form =
     (let ik = set (form_input_keys form); ok = set (form_output_keys form);
          mk = set (form_metadata_keys form)
      in if ik \<inter> ok \<noteq> {} then Inl (ValueError (KeysOverlap ''input_keys'' ''output_keys'' (ik \<inter> ok)))
         else if ik \<inter> mk \<noteq> {} then Inl (ValueError (KeysOverlap ''input_keys'' ''metadata_keys'' (ik \<inter> mk)))
         else if ok \<inter> mk \<noteq> {} then Inl (ValueError (KeysOverlap ''output_keys'' ''metadata_keys'' (ok \<inter> mk)))
         else Inr \<lparr>action = act, parsed_name = nm,
                   description = or_else (form_description form) (filename f),
                   input_keys = ik, output_keys = ok, metadata_keys = mk, uploaded = f\<rparr>)"
  using assms by (simp add: parse_form_data_def)

text \<open>
  Claim C7. For a form with a name, a valid action and an uploaded file: if a column
  name is in more than one of the three role sets, \<open>_parse_form_data\<close> raises a
  \<open>ValueError\<close> that carries the overlap; if the sets are pairwise disjoint it returns
  them. \<open>_check_keys_exist\<close> raises a \<open>ValueError\<close> carrying missing keys if some
  requested column is not among the column headers, and succeeds if all are.
\<close>

theorem role_validation:
  assumes "or_else (form_name form) None = Some nm"
    and "DatasetAction env (or_default (form_action form) ''create'') = Inr act"
    and "form_file form = Some (FormUpload f)"
  shows "(\<not> pairwise_disjoint (set (form_input_keys form)) (set (form_output_keys form))
              (set (form_metadata_keys form)) \<longrightarrow>
            (\<exists>a b overlap. parse_form_data env form = Inl (ValueError (KeysOverlap a b overlap))
               \<and> overlap \<noteq> {}))
     \<and> (pairwise_disjoint (set (form_input_keys form)) (set (form_output_keys form))
              (set (form_metadata_keys form)) \<longrightarrow>
            (\<exists>p. parse_form_data env form = Inr p
               \<and> input_keys p = set (form_input_keys form)
               \<and> output_keys p = set (form_output_keys form)
               \<and> metadata_keys p = set (form_metadata_keys form)))
     \<and> (\<not> ik \<union> ok \<union> mk \<subseteq> column_headers \<longrightarrow>
            (\<exists>desc diff. check_keys_exist column_headers ik ok mk = Inl (ValueError (KeysNotFound desc diff))
               \<and> diff \<noteq> {} \<and> diff \<subseteq> (ik \<union> ok \<union> mk) - column_headers))
     \<and> (ik \<union> ok \<union> mk \<subseteq> column_headers \<longrightarrow> check_keys_exist column_headers ik ok mk = Inr ())"
  using parse_form_data_roles [OF assms] check_keys_exist_fails [of ik ok mk column_headers]
    check_keys_exist_ok [of column_headers ik ok mk]
  by (auto simp: pairwise_disjoint_def Let_def)

theorem role_validation_witness:
  "(\<exists>p. parse_form_data plain_env (qa_form qa_csv (Some ''text/csv'') None) = Inr p
        \<and> input_keys p = set (form_input_keys (qa_form qa_csv (Some ''text/csv'') None))
        \<and> output_keys p = set (form_output_keys (qa_form qa_csv (Some ''text/csv'') None))
        \<and> metadata_keys p = set (form_metadata_keys (qa_form qa_csv (Some ''text/csv'') None)))
   \<and> check_keys_exist {''q'', ''a'', ''tag''} {''q''} {''a''} {''tag''} = Inr ()"
proof -
  let ?f = "qa_form qa_csv (Some ''text/csv'') None"
  have h1: "or_else (form_name ?f) None = Some ''qa-v1''" by (simp add: qa_form_def or_else_def)
  have h2: "DatasetAction plain_env (or_default (form_action ?f) ''create'') = Inr DatasetAction_CREATE"
    by (simp add: qa_form_def or_default_def plain_env_def)
  have h3: "form_file ?f = Some (FormUpload \<lparr>filename = Some ''qa.csv'', content_type = Some ''text/csv'',
        content_encoding = None, file_content = qa_csv\<rparr>)"
    by (simp add: qa_form_def)
  have d: "pairwise_disjoint (set (form_input_keys ?f)) (set (form_output_keys ?f)) (set (form_metadata_keys ?f))"
    by (simp add: qa_form_def pairwise_disjoint_def)
  have sub: "{''q''} \<union> {''a''} \<union> {''tag''} \<subseteq> {''q'', ''a'', ''tag''}" by simp
  note rv = role_validation [OF h1 h2 h3, where ik = "{''q''}" and ok = "{''a''}" and mk = "{''tag''}"
        and column_headers = "{''q'', ''a'', ''tag''}"]
  from rv [THEN conjunct2, THEN conjunct1, rule_format, OF d]
    rv [THEN conjunct2, THEN conjunct2, THEN conjunct2, rule_format, OF sub]
  show ?thesis by (rule conjI)
qed

subsection \<open>The absent content encoding\<close>

lemma decoded_text_NONE: "decoded_text env content NONE = bytes_decode env content"
  by (simp add: decoded_text_def split: sum.splits)

lemma process_csv_NONE_no_decompress:
  "process_csv (env\<lparr>gzip_decompress := g, zlib_decompress := z\<rparr>) content NONE = process_csv env content NONE"
  by (simp add: process_csv_def cong: sum.case_cong)

lemma ce_none_ge2: "2 \<le> d \<Longrightarrow> FileContentEncoding_new d (Some ''none'') = Inr NONE"
  using ce_none [of "d - 1"] by (cases d) simp_all

lemma decode_upload_encoding:
  assumes "FileContentEncoding_new (stack_depth env) ce = FileContentEncoding_new (stack_depth env) ce'"
  shows "decode_upload env (p\<lparr>uploaded := (uploaded p)\<lparr>content_encoding := ce\<rparr>\<rparr>) =
         decode_upload env (p\<lparr>uploaded := (uploaded p)\<lparr>content_encoding := ce'\<rparr>\<rparr>)"
  using assms by (simp add: decode_upload_def cong: sum.case_cong FileContentType.case_cong)

lemma parse_form_data_file:
  "parse_form_data env (form\<lparr>form_file := Some (FormUpload f)\<rparr>) = Inr p \<Longrightarrow>
   parse_form_data env (form\<lparr>form_file := Some (FormUpload (f\<lparr>content_encoding := ce\<rparr>))\<rparr>) =
     Inr (p\<lparr>uploaded := (uploaded p)\<lparr>content_encoding := ce\<rparr>\<rparr>)"
  by (auto simp: parse_form_data_def Let_def split: option.splits sum.splits if_splits)

lemma parse_form_data_file_err:
  "parse_form_data env (form\<lparr>form_file := Some (FormUpload f)\<rparr>) = Inl e \<Longrightarrow>
   parse_form_data env (form\<lparr>form_file := Some (FormUpload (f\<lparr>content_encoding := ce\<rparr>))\<rparr>) = Inl e"
  by (auto simp: parse_form_data_def Let_def split: option.splits sum.splits if_splits)

lemma post_datasets_upload_encoding:
  assumes "FileContentEncoding_new (stack_depth env) ce = FileContentEncoding_new (stack_depth env) ce'"
  shows "post_datasets_upload env st (form\<lparr>form_file := Some (FormUpload (f\<lparr>content_encoding := ce\<rparr>))\<rparr>) =
         post_datasets_upload env st (form\<lparr>form_file := Some (FormUpload (f\<lparr>content_encoding := ce'\<rparr>))\<rparr>)"
proof (cases "parse_form_data env (form\<lparr>form_file := Some (FormUpload f)\<rparr>)")
  case (Inl e)
  from parse_form_data_file_err [OF Inl, of ce] parse_form_data_file_err [OF Inl, of ce']
  show ?thesis by (simp add: post_datasets_upload_def)
next
  case (Inr p)
  have "decode_upload env (p\<lparr>uploaded := (uploaded p)\<lparr>content_encoding := ce\<rparr>\<rparr>) =
        decode_upload env (p\<lparr>uploaded := (uploaded p)\<lparr>content_encoding := ce'\<rparr>\<rparr>)"
    using assms by (rule decode_upload_encoding)
  with parse_form_data_file [OF Inr, of ce] parse_form_data_file [OF Inr, of ce']
  show ?thesis by (simp add: post_datasets_upload_def cong: sum.case_cong)
qed

lemma process_csv_NONE:
  "process_csv env content NONE =
     (case bytes_decode env content of
        Inl e \<Rightarrow> Inl e
      | Inr text \<Rightarrow>
          (case DictReader_fieldnames env text of
             Inl e \<Rightarrow> Inl e
           | Inr None \<Rightarrow> Inl (ValueError MissingCSVColumnHeader)
           | Inr (Some fieldnames) \<Rightarrow>
               (case most_common_1 (Counter fieldnames) of
                  [] \<Rightarrow> Inl (ValueError NotEnoughValuesToUnpack)
                | (header, freq) # _ \<Rightarrow>
                    if 1 < freq then Inl (ValueError (DuplicatedColumnHeader header))
                    else Inr (CsvReader text, set fieldnames))))"
  by (simp add: process_csv_decoded decoded_text_NONE)

lemma decode_upload_absent_encoding:
  assumes "2 \<le> stack_depth env"
    and "FileContentType_new (stack_depth env) (content_type (uploaded p)) = Inr CSV"
    and "content_encoding (uploaded p) = None"
  shows "decode_upload env p =
     (case process_csv env (file_content (uploaded p)) NONE of
        Inl e \<Rightarrow> Inl e
      | Inr (get_examples, column_headers) \<Rightarrow>
          (case check_keys_exist column_headers (input_keys p) (output_keys p) (metadata_keys p) of
             Inl e \<Rightarrow> Inl e
           | Inr u \<Rightarrow> Inr get_examples))"
  using assms(2,3) ce_None_ge2 [OF assms(1)] by (simp add: decode_upload_def)

text \<open>
  Claim C10. With room for two nested calls, \<open>FileContentEncoding(None)\<close> is \<open>NONE\<close>, as
  is \<open>FileContentEncoding("none")\<close>. \<open>_process_csv\<close> with \<open>NONE\<close> decodes the content
  itself and checks the header of that text: no decompressor is called and the reader
  it returns reads the decoded content. A CSV upload without a content-encoding header
  is decoded by \<open>_process_csv\<close> with \<open>NONE\<close> on the bytes of the file, and the handler
  answers it as it answers the same upload with the header \<open>none\<close>.
\<close>

theorem absent_encoding_is_none:
  assumes "2 \<le> stack_depth env"
  shows "FileContentEncoding_new (stack_depth env) None = Inr NONE
     \<and> FileContentEncoding_new (stack_depth env) (Some ''none'') = Inr NONE
     \<and> process_csv env content NONE =
         (case bytes_decode env content of
            Inl e \<Rightarrow> Inl e
          | Inr text \<Rightarrow>
              (case DictReader_fieldnames env text of
                 Inl e \<Rightarrow> Inl e
               | Inr None \<Rightarrow> Inl (ValueError MissingCSVColumnHeader)
               | Inr (Some fieldnames) \<Rightarrow>
                   (case most_common_1 (Counter fieldnames) of
                      [] \<Rightarrow> Inl (ValueError NotEnoughValuesToUnpack)
                    | (header, freq) # _ \<Rightarrow>
                        if 1 < freq then Inl (ValueError (DuplicatedColumnHeader header))
                        else Inr (CsvReader text, set fieldnames))))
     \<and> process_csv (env\<lparr>gzip_decompress := g, zlib_decompress := z\<rparr>) content NONE =
         process_csv env content NONE
     \<and> (FileContentType_new (stack_depth env) (content_type (uploaded p)) = Inr CSV
          \<and> content_encoding (uploaded p) = None \<longrightarrow>
            decode_upload env p =
              (case process_csv env (file_content (uploaded p)) NONE of
                 Inl e \<Rightarrow> Inl e
               | Inr (get_examples, column_headers) \<Rightarrow>
                   (case check_keys_exist column_headers (input_keys p) (output_keys p) (metadata_keys p) of
                      Inl e \<Rightarrow> Inl e
                    | Inr u \<Rightarrow> Inr get_examples)))
     \<and> post_datasets_upload env st (form\<lparr>form_file := Some (FormUpload (f\<lparr>content_encoding := None\<rparr>))\<rparr>) =
         post_datasets_upload env st (form\<lparr>form_file := Some (FormUpload (f\<lparr>content_encoding := Some ''none''\<rparr>))\<rparr>)"
proof -
  have a: "FileContentEncoding_new (stack_depth env) None = Inr NONE"
    using assms by (rule ce_None_ge2)
  have b: "FileContentEncoding_new (stack_depth env) (Some ''none'') = Inr NONE"
    using assms by (rule ce_none_ge2)
  from a b have "FileContentEncoding_new (stack_depth env) None =
      FileContentEncoding_new (stack_depth env) (Some ''none'')" by simp
  note c = post_datasets_upload_encoding [OF this, where st = st and form = form and f = f]
  note d = process_csv_NONE [where env = env and content = content]
  note e = process_csv_NONE_no_decompress [where env = env and g = g and z = z and content = content]
  have f: "FileContentType_new (stack_depth env) (content_type (uploaded p)) = Inr CSV
          \<and> content_encoding (uploaded p) = None \<longrightarrow>
            decode_upload env p =
              (case process_csv env (file_content (uploaded p)) NONE of
                 Inl e \<Rightarrow> Inl e
               | Inr (get_examples, column_headers) \<Rightarrow>
                   (case check_keys_exist column_headers (input_keys p) (output_keys p) (metadata_keys p) of
                      Inl e \<Rightarrow> Inl e
                    | Inr u \<Rightarrow> Inr get_examples))"
    using decode_upload_absent_encoding [OF assms, where p = p] by blast
  from a b d e f c show ?thesis by (intro conjI)
qed

theorem absent_encoding_is_none_witness:
  "FileContentEncoding_new (stack_depth plain_env) None = Inr NONE
   \<and> process_csv plain_env qa_csv NONE = Inr (CsvReader qa_csv, {''q'', ''a'', ''tag''})
   \<and> decode_upload plain_env (qa_parsed qa_csv (Some ''text/csv'') None) = Inr (CsvReader qa_csv)
   \<and> post_datasets_upload plain_env (idle_state 1) (qa_form qa_csv (Some ''text/csv'') None) =
       post_datasets_upload plain_env (idle_state 1) (qa_form qa_csv (Some ''text/csv'') (Some ''none''))"
proof -
  let ?f = "\<lparr>filename = Some ''qa.csv'', content_type = Some ''text/csv'',
        content_encoding = None, file_content = qa_csv\<rparr>"
  let ?p = "qa_parsed qa_csv (Some ''text/csv'') None"
  note th = absent_encoding_is_none [OF plain_stack, where st = "idle_state 1"
      and form = "qa_form qa_csv (Some ''text/csv'') None" and f = ?f and content = qa_csv
      and p = ?p and g = "gzip_decompress plain_env" and z = "zlib_decompress plain_env"]
  have ct: "FileContentType_new (stack_depth plain_env) (content_type (uploaded ?p)) = Inr CSV
      \<and> content_encoding (uploaded ?p) = None"
    by (simp add: ct_accepts_ge2 [OF plain_stack] qa_parsed_def FileContentType_value2member_def
          lower_def lower_char_def ascii_uppercase_def ascii_lowercase_def)
  have dec: "bytes_decode plain_env qa_csv = Inr qa_csv"
    by (simp add: plain_env_def qa_csv_def isascii_def)
  have mc: "most_common_1 (Counter [''q'', ''a'', ''tag'']) = [(''q'', 1)]"
    by (simp add: Counter_def)
  have w1: "FileContentEncoding_new (stack_depth plain_env) None = Inr NONE"
    using th [THEN conjunct1] .
  have w2: "process_csv plain_env qa_csv NONE = Inr (CsvReader qa_csv, {''q'', ''a'', ''tag''})"
    using th [THEN conjunct2, THEN conjunct2, THEN conjunct1] dec qa_csv_fieldnames mc by simp
  have fc: "file_content (uploaded ?p) = qa_csv" by (simp add: qa_parsed_def)
  have ck: "check_keys_exist {''q'', ''a'', ''tag''} (input_keys ?p) (output_keys ?p) (metadata_keys ?p) = Inr ()"
    by (simp add: check_keys_exist_ok qa_parsed_def)
  have w3: "decode_upload plain_env ?p = Inr (CsvReader qa_csv)"
    using th [THEN conjunct2, THEN conjunct2, THEN conjunct2, THEN conjunct2, THEN conjunct1, THEN mp, OF ct]
      w2 ck
    by (simp add: fc)
  have w4: "post_datasets_upload plain_env (idle_state 1) (qa_form qa_csv (Some ''text/csv'') None) =
       post_datasets_upload plain_env (idle_state 1) (qa_form qa_csv (Some ''text/csv'') (Some ''none''))"
    using th [THEN conjunct2, THEN conjunct2, THEN conjunct2, THEN conjunct2, THEN conjunct2]
    by (simp add: qa_form_def)
  from w1 w2 w3 w4 show ?thesis by (intro conjI)
qed

subsection \<open>Values without a cased character\<close>

text \<open>
  Claim C8, at the content type \<open>123\<close>: the value is not a member, it is a non-empty
  ASCII string and \<open>islower\<close> is false for it since it has no cased character, so
  \<open>_missing_\<close> calls the constructor again with the same value, whatever the depth
  allowed: the call ends in \<open>RecursionError\<close>, which is not a \<open>ValueError\<close>, and so
  does the decoding of an upload that declares this content type.
\<close>

theorem caseless_value_recursion:
  "FileContentType_new n (Some ''123'') = Inl RecursionError
   \<and> FileContentEncoding_new n (Some ''123'') = Inl RecursionError
   \<and> decode_upload env (p\<lparr>uploaded := (uploaded p)\<lparr>content_type := Some ''123''\<rparr>\<rparr>) = Inl RecursionError"
  by (simp add: ct_caseless_recursion ce_caseless_recursion decode_upload_def)


section \<open>Properties of the export path\<close>

subsection \<open>The rows of the subquery and of the statement\<close>

lemma qualifying_examples_Collect:
  "qualifying_examples d did c = {k. in_dataset d did k \<and> qualifying d c k \<noteq> []}"
  by (auto simp: qualifying_examples_def in_dataset_def)

lemma set_join:
  "set (concat (map (\<lambda>r. map (\<lambda>e. (r, e)) (filter (P r) es)) rs)) =
     {(r, e). r \<in> set rs \<and> e \<in> set es \<and> P r e}"
  by (induction rs) auto

lemma set_latest_version_from:
  "set (latest_version_from d did c) =
     {r \<in> set (dataset_example_revisions d).
        in_dataset d did (dataset_example_id r) \<and> below_ceiling c (dataset_version_id r)}"
  unfolding latest_version_from_def set_map set_filter set_join in_dataset_def
  by force

lemma keys_latest_version_from:
  "set (map dataset_example_id (latest_version_from d did c)) = qualifying_examples d did c"
proof -
  have "qualifying d c k \<noteq> [] \<longleftrightarrow>
        (\<exists>r \<in> set (dataset_example_revisions d). dataset_example_id r = k \<and> below_ceiling c (dataset_version_id r))" for k
    by (auto simp: qualifying_def filter_empty_conv)
  then show ?thesis
    by (auto simp: set_latest_version_from qualifying_examples_Collect)
qed

lemma group_versions:
  assumes "in_dataset d did k"
  shows "set (map dataset_version_id (filter (\<lambda>r. dataset_example_id r = k) (latest_version_from d did c)))
       = set (map dataset_version_id (qualifying d c k))"
  using assms by (auto simp: set_latest_version_from qualifying_def)

lemma finite_qualifying_examples: "finite (qualifying_examples d did c)"
  by (metis List.finite_set keys_latest_version_from)

lemma rank_over_card:
  assumes "distinct ks"
  shows "rank_over ks k - 1 = int (card {k' \<in> set ks. k' < k})"
proof -
  have "length (filter (\<lambda>k'. k' < k) ks) = card (set (filter (\<lambda>k'. k' < k) ks))"
    using assms by (metis distinct_card distinct_filter)
  then show ?thesis by (simp add: rank_over_def)
qed

lemma latest_version_rows:
  "\<exists>ks. distinct ks \<and> set ks = qualifying_examples d did c
        \<and> latest_version d did c = map (lv_row d did c) ks"
proof -
  let ?rows = "latest_version_from d did c"
  let ?ks = "remdups (map dataset_example_id ?rows)"
  have ks: "set ?ks = qualifying_examples d did c"
    using keys_latest_version_from [of d did c] by simp
  have "latest_version d did c = map (lv_row d did c) ?ks"
    unfolding latest_version_def Let_def
  proof (rule map_cong [OF refl])
    fix k assume k: "k \<in> set ?ks"
    then have "in_dataset d did k" using ks by (simp add: qualifying_examples_Collect)
    from group_versions [OF this, of c] rank_over_card [of ?ks k] ks
    show "\<lparr>lv_dataset_example_id = k, lv_example_index = rank_over ?ks k - 1,
           lv_dataset_version_id = Max (set (map dataset_version_id (filter (\<lambda>r. dataset_example_id r = k) ?rows)))\<rparr>
        = lv_row d did c k"
      by (simp add: lv_row_def example_index_at_def max_version_def)
  qed
  with ks show ?thesis by (metis distinct_remdups)
qed


lemma filter_lv_row:
  assumes "distinct ks"
  shows "filter (\<lambda>s. a = lv_dataset_example_id s \<and> b = lv_dataset_version_id s) (map (lv_row d did c) ks)
       = (if a \<in> set ks \<and> b = max_version d c a then [lv_row d did c a] else [])"
  using assms by (induction ks) (auto simp: lv_row_def example_index_at_def)

lemma concat_map_if:
  "concat (map (\<lambda>r. map (\<lambda>s. (r, s)) (if C r then [g r] else [])) rs) = map (\<lambda>r. (r, g r)) (filter C rs)"
  by (induction rs) auto

lemma stmt_rows_canonical:
  "stmt_rows d did c =
     sort_key (\<lambda>(r, s). dataset_example_id r)
       (map (\<lambda>r. (r, lv_row d did c (dataset_example_id r)))
            (filter (survives d did c) (dataset_example_revisions d)))"
proof -
  obtain ks where ks: "distinct ks" "set ks = qualifying_examples d did c"
    "latest_version d did c = map (lv_row d did c) ks"
    using latest_version_rows by blast
  have inner: "filter (\<lambda>s. dataset_example_id r = lv_dataset_example_id s
                        \<and> dataset_version_id r = lv_dataset_version_id s) (latest_version d did c)
      = (if dataset_example_id r \<in> qualifying_examples d did c
            \<and> dataset_version_id r = max_version d c (dataset_example_id r)
         then [lv_row d did c (dataset_example_id r)] else [])" for r
    using filter_lv_row [OF ks(1), of "dataset_example_id r" "dataset_version_id r" d did c] ks(2,3)
    by simp
  have surv: "survives d did c =
      (\<lambda>x. dataset_example_id x \<in> qualifying_examples d did c
           \<and> dataset_version_id x = max_version d c (dataset_example_id x)
           \<and> revision_kind x \<noteq> DELETE)"
    by (auto simp: survives_def fun_eq_iff)
  have "filter (\<lambda>(r, s). revision_kind r \<noteq> DELETE)
          (concat (map (\<lambda>r. map (\<lambda>s. (r, s))
                                (filter (\<lambda>s. dataset_example_id r = lv_dataset_example_id s
                                              \<and> dataset_version_id r = lv_dataset_version_id s)
                                        (latest_version d did c)))
                       (dataset_example_revisions d)))
      = map (\<lambda>r. (r, lv_row d did c (dataset_example_id r)))
            (filter (survives d did c) (dataset_example_revisions d))"
    unfolding inner concat_map_if
    by (simp add: filter_map comp_def surv)
  then show ?thesis by (simp add: stmt_rows_def)
qed

lemma set_stmt_rows:
  "set (stmt_rows d did c) =
     {(r, s). r \<in> set (dataset_example_revisions d) \<and> survives d did c r
              \<and> s = lv_row d did c (dataset_example_id r)}"
  by (auto simp: stmt_rows_canonical)

lemma set_snapshot_example_ids:
  "set (snapshot_example_ids d did c) =
     dataset_example_id ` {r \<in> set (dataset_example_revisions d). survives d did c r}"
  by (auto simp: snapshot_example_ids_def set_stmt_rows image_iff)

lemma sorted_snapshot_example_ids: "sorted (snapshot_example_ids d did c)"
proof -
  have "snapshot_example_ids d did c = map (\<lambda>(r, s). dataset_example_id r) (stmt_rows d did c)"
    by (simp add: snapshot_example_ids_def)
  then show ?thesis
    unfolding stmt_rows_def by (simp add: sorted_sort_key)
qed

lemma survives_inj:
  assumes "unique_versions d"
  shows "inj_on dataset_example_id {r \<in> set (dataset_example_revisions d). survives d did c r}"
proof (rule inj_onI)
  fix x y
  assume x: "x \<in> {r \<in> set (dataset_example_revisions d). survives d did c r}"
    and y: "y \<in> {r \<in> set (dataset_example_revisions d). survives d did c r}"
    and eq: "dataset_example_id x = dataset_example_id y"
  from x y eq have "dataset_version_id x = dataset_version_id y" by (simp add: survives_def)
  with eq have "(dataset_example_id x, dataset_version_id x) = (dataset_example_id y, dataset_version_id y)"
    by simp
  moreover from assms have "inj_on (\<lambda>r. (dataset_example_id r, dataset_version_id r)) (set (dataset_example_revisions d))"
    by (simp add: unique_versions_def distinct_map)
  ultimately show "x = y" using x y by (auto dest: inj_onD)
qed

lemma distinct_snapshot_example_ids:
  assumes "unique_versions d"
  shows "distinct (snapshot_example_ids d did c)"
proof -
  let ?L = "map (\<lambda>r. (r, lv_row d did c (dataset_example_id r)))
            (filter (survives d did c) (dataset_example_revisions d))"
  from assms have dr: "distinct (dataset_example_revisions d)"
    by (simp add: unique_versions_def distinct_map)
  have "distinct (map (\<lambda>(r, s). dataset_example_id r) ?L)"
    using dr survives_inj [OF assms, of did c] by (simp add: distinct_map comp_def)
  then have "distinct ?L" "inj_on (\<lambda>(r, s). dataset_example_id r) (set ?L)"
    by (simp_all only: distinct_map)
  then show ?thesis
    unfolding snapshot_example_ids_def stmt_rows_canonical by (simp add: distinct_map)
qed


lemma qualifying_versions_Max:
  assumes "qualifying d c k \<noteq> []"
  shows "\<exists>r' \<in> set (qualifying d c k). dataset_version_id r' = max_version d c k"
    and "\<forall>r' \<in> set (qualifying d c k). dataset_version_id r' \<le> max_version d c k"
proof -
  let ?S = "set (map dataset_version_id (qualifying d c k))"
  have fin: "finite ?S" and ne: "?S \<noteq> {}" using assms by simp_all
  from Max_in [OF fin ne] show "\<exists>r' \<in> set (qualifying d c k). dataset_version_id r' = max_version d c k"
    unfolding max_version_def by auto
  show "\<forall>r' \<in> set (qualifying d c k). dataset_version_id r' \<le> max_version d c k"
    unfolding max_version_def using Max_ge [OF fin] by auto
qed

lemma selected_iff:
  "selected d c k r \<longleftrightarrow>
     r \<in> set (dataset_example_revisions d) \<and> dataset_example_id r = k
     \<and> qualifying d c k \<noteq> [] \<and> dataset_version_id r = max_version d c k"
proof
  assume s: "selected d c k r"
  then have r: "r \<in> set (qualifying d c k)" by (simp add: selected_def)
  then have ne: "qualifying d c k \<noteq> []" by auto
  from qualifying_versions_Max [OF ne] s r
  have "dataset_version_id r = max_version d c k"
    by (metis order_antisym selected_def)
  with r ne show "r \<in> set (dataset_example_revisions d) \<and> dataset_example_id r = k
     \<and> qualifying d c k \<noteq> [] \<and> dataset_version_id r = max_version d c k"
    by (simp add: qualifying_def)
next
  assume a: "r \<in> set (dataset_example_revisions d) \<and> dataset_example_id r = k
     \<and> qualifying d c k \<noteq> [] \<and> dataset_version_id r = max_version d c k"
  then have ne: "qualifying d c k \<noteq> []" by simp
  from qualifying_versions_Max(1) [OF ne] obtain r' where
    "r' \<in> set (qualifying d c k)" "dataset_version_id r' = max_version d c k" by blast
  with a have "below_ceiling c (dataset_version_id r)" by (simp add: qualifying_def)
  with a have "r \<in> set (qualifying d c k)" by (simp add: qualifying_def)
  with qualifying_versions_Max(2) [OF ne] a show "selected d c k r"
    by (simp add: selected_def)
qed

lemma survives_selected:
  "r \<in> set (dataset_example_revisions d) \<and> survives d did c r \<longleftrightarrow>
     in_dataset d did (dataset_example_id r) \<and> selected d c (dataset_example_id r) r
     \<and> revision_kind r \<noteq> DELETE"
  by (auto simp: survives_def selected_iff qualifying_examples_Collect)

lemma snapshot_member:
  "k \<in> set (snapshot_example_ids d did c) \<longleftrightarrow>
     in_dataset d did k \<and> (\<exists>r. selected d c k r \<and> revision_kind r \<noteq> DELETE)"
proof -
  have "k \<in> set (snapshot_example_ids d did c) \<longleftrightarrow>
        (\<exists>r. (r \<in> set (dataset_example_revisions d) \<and> survives d did c r) \<and> dataset_example_id r = k)"
    by (auto simp: set_snapshot_example_ids)
  also have "\<dots> \<longleftrightarrow> in_dataset d did k \<and> (\<exists>r. selected d c k r \<and> revision_kind r \<noteq> DELETE)"
    unfolding survives_selected by (auto simp: selected_iff)
  finally show ?thesis .
qed

lemma selected_unique:
  assumes "unique_versions d" "selected d c k r" "selected d c k r'"
  shows "r = r'"
proof -
  from assms(2,3) have "r \<in> set (dataset_example_revisions d)" "r' \<in> set (dataset_example_revisions d)"
    "(dataset_example_id r, dataset_version_id r) = (dataset_example_id r', dataset_version_id r')"
    by (simp_all add: selected_iff)
  moreover from assms(1) have "inj_on (\<lambda>r. (dataset_example_id r, dataset_version_id r)) (set (dataset_example_revisions d))"
    by (simp add: unique_versions_def distinct_map)
  ultimately show ?thesis by (auto dest: inj_onD)
qed

lemma tombstone_selected:
  assumes "t \<in> set (dataset_example_revisions d)" "below_ceiling c (dataset_version_id t)"
    and "\<forall>r \<in> set (dataset_example_revisions d).
           dataset_example_id r = dataset_example_id t \<and> below_ceiling c (dataset_version_id r)
             \<longrightarrow> dataset_version_id r \<le> dataset_version_id t"
  shows "selected d c (dataset_example_id t) t"
  using assms by (auto simp: selected_def qualifying_def)

lemma stmt_row_member:
  assumes "in_dataset d did k" "selected d c k r" "revision_kind r \<noteq> DELETE"
  shows "(rev_input r, rev_output r, rev_metadata r, example_index_at d did c k) \<in> set (stmt d did c)"
proof -
  from assms have r: "r \<in> set (dataset_example_revisions d) \<and> survives d did c r" and k: "dataset_example_id r = k"
    using survives_selected [of r d did c] by (auto simp: selected_iff)
  then have "(r, lv_row d did c k) \<in> set (stmt_rows d did c)"
    by (simp add: set_stmt_rows)
  then have "(\<lambda>(r, s). (rev_input r, rev_output r, rev_metadata r, lv_example_index s)) (r, lv_row d did c k)
      \<in> set (stmt d did c)"
    unfolding stmt_def by (metis (no_types, lifting) image_eqI set_map)
  then show ?thesis by (simp add: lv_row_def example_index_at_def)
qed


lemma strictly_ascending_ids:
  assumes "unique_versions d"
  shows "sorted_wrt (<) (snapshot_example_ids d did c)"
  using sorted_snapshot_example_ids distinct_snapshot_example_ids [OF assms]
  by (simp add: strict_sorted_iff)

lemma stmt_rows_snd:
  "(r, s) \<in> set (stmt_rows d did c) \<Longrightarrow> lv_example_index s = example_index_at d did c (dataset_example_id r)"
  by (simp add: set_stmt_rows lv_row_def example_index_at_def)

lemma example_indices_stmt:
  "example_indices (stmt d did c) = map (example_index_at d did c) (snapshot_example_ids d did c)"
proof -
  have "example_indices (stmt d did c) = map (\<lambda>(r, s). lv_example_index s) (stmt_rows d did c)"
    by (simp add: example_indices_def stmt_def comp_def case_prod_beta)
  also have "\<dots> = map (\<lambda>(r, s). example_index_at d did c (dataset_example_id r)) (stmt_rows d did c)"
    by (rule map_cong [OF refl]) (auto simp: stmt_rows_snd)
  also have "\<dots> = map (example_index_at d did c) (snapshot_example_ids d did c)"
    by (simp add: snapshot_example_ids_def comp_def case_prod_beta)
  finally show ?thesis .
qed

lemma snapshot_ids_qualifying:
  "set (snapshot_example_ids d did c) \<subseteq> qualifying_examples d did c"
  by (auto simp: set_snapshot_example_ids survives_def)

lemma example_index_at_mono:
  assumes "k \<in> qualifying_examples d did c" "k < k'"
  shows "example_index_at d did c k < example_index_at d did c k'"
proof -
  have "{x \<in> qualifying_examples d did c. x < k} \<subset> {x \<in> qualifying_examples d did c. x < k'}"
    using assms by auto
  moreover have "finite {x \<in> qualifying_examples d did c. x < k'}"
    using finite_qualifying_examples [of d did c] by simp
  ultimately show ?thesis
    unfolding example_index_at_def by (simp add: psubset_card_mono)
qed

lemma strictly_increasing_indices:
  assumes "unique_versions d"
  shows "sorted_wrt (<) (example_indices (stmt d did c))"
proof -
  have "sorted_wrt (\<lambda>k k'. example_index_at d did c k < example_index_at d did c k')
          (snapshot_example_ids d did c)"
    using strictly_ascending_ids [OF assms, of did c]
  proof (rule sorted_wrt_mono_rel [rotated])
    fix k k'
    assume "k \<in> set (snapshot_example_ids d did c)" "k' \<in> set (snapshot_example_ids d did c)" "k < k'"
    then show "example_index_at d did c k < example_index_at d did c k'"
      using snapshot_ids_qualifying [of d did c] by (auto intro: example_index_at_mono)
  qed
  then show ?thesis by (simp add: example_indices_stmt sorted_wrt_map)
qed

lemma card_less_nth:
  assumes "sorted_wrt (<) (xs :: int list)" "j < length xs"
  shows "card {x \<in> set xs. x < xs ! j} = j"
proof -
  from assms(1) have d: "distinct xs" by (simp add: strict_sorted_iff)
  have "{x \<in> set xs. x < xs ! j} = set (take j xs)"
  proof (rule set_eqI)
    fix x
    show "x \<in> {x \<in> set xs. x < xs ! j} \<longleftrightarrow> x \<in> set (take j xs)"
    proof
      assume "x \<in> {x \<in> set xs. x < xs ! j}"
      then obtain i where i: "i < length xs" "xs ! i = x" "x < xs ! j"
        by (auto simp: in_set_conv_nth)
      have "i < j"
      proof (rule ccontr)
        assume "\<not> i < j"
        then have "j \<le> i" by simp
        then have "xs ! j \<le> xs ! i"
          using assms(1) i(1) by (metis le_neq_implies_less less_imp_le order_refl sorted_wrt_nth_less)
        with i show False by simp
      qed
      with i assms(2) show "x \<in> set (take j xs)"
        by (auto simp: in_set_conv_nth)
    next
      assume "x \<in> set (take j xs)"
      then obtain i where i: "i < j" "i < length xs" "xs ! i = x"
        using assms(2) by (auto simp: in_set_conv_nth)
      with assms have "x < xs ! j" by (metis sorted_wrt_nth_less)
      with i show "x \<in> {x \<in> set xs. x < xs ! j}" by auto
    qed
  qed
  with d assms(2) show ?thesis by (simp add: distinct_card)
qed

lemma dense_indices:
  assumes "unique_versions d"
    and "set (snapshot_example_ids d did c) = qualifying_examples d did c"
  shows "example_indices (stmt d did c) = map int [0..<length (stmt d did c)]"
proof (rule nth_equalityI)
  show "length (example_indices (stmt d did c)) = length (map int [0..<length (stmt d did c)])"
    by (simp add: example_indices_def)
next
  fix j assume "j < length (example_indices (stmt d did c))"
  then have j: "j < length (snapshot_example_ids d did c)" "j < length (stmt d did c)"
    by (simp_all add: example_indices_def snapshot_example_ids_def stmt_def)
  have "example_index_at d did c (snapshot_example_ids d did c ! j) = int j"
    unfolding example_index_at_def assms(2) [symmetric]
    using card_less_nth [OF strictly_ascending_ids [OF assms(1)] j(1)] by simp
  with j show "example_indices (stmt d did c) ! j = map int [0..<length (stmt d did c)] ! j"
    by (simp add: example_indices_stmt)
qed

lemma selected_exists:
  assumes "qualifying d c k \<noteq> []"
  shows "\<exists>r \<in> set (dataset_example_revisions d). selected d c k r"
proof -
  from qualifying_versions_Max(1) [OF assms] obtain r where
    r: "r \<in> set (qualifying d c k)" "dataset_version_id r = max_version d c k" by blast
  then have "r \<in> set (dataset_example_revisions d)" "dataset_example_id r = k"
    by (simp_all add: qualifying_def)
  with r assms show ?thesis by (auto simp: selected_iff)
qed

lemma selected_in_log: "selected d c k r \<Longrightarrow> r \<in> set (dataset_example_revisions d)"
  by (simp add: selected_iff)

lemma tombstoned_absent:
  assumes "unique_versions d" "tombstoned d c k"
  shows "k \<notin> set (snapshot_example_ids d did c)"
proof
  assume "k \<in> set (snapshot_example_ids d did c)"
  then obtain r where r: "selected d c k r" "revision_kind r \<noteq> DELETE"
    by (auto simp: snapshot_member)
  from assms(2) obtain t where t: "selected d c k t" "revision_kind t = DELETE"
    by (auto simp: tombstoned_def)
  from selected_unique [OF assms(1) r(1) t(1)] r(2) t(2) show False by simp
qed

lemma no_tombstone_all_survive:
  assumes "unique_versions d" "\<forall>k \<in> qualifying_examples d did c. \<not> tombstoned d c k"
  shows "set (snapshot_example_ids d did c) = qualifying_examples d did c"
proof
  show "set (snapshot_example_ids d did c) \<subseteq> qualifying_examples d did c"
    by (rule snapshot_ids_qualifying)
next
  show "qualifying_examples d did c \<subseteq> set (snapshot_example_ids d did c)"
  proof
    fix k assume k: "k \<in> qualifying_examples d did c"
    then have q: "in_dataset d did k" "qualifying d c k \<noteq> []"
      by (simp_all add: qualifying_examples_Collect)
    from selected_exists [OF q(2)] obtain r where
      r: "r \<in> set (dataset_example_revisions d)" "selected d c k r" by blast
    with assms(2) k have "revision_kind r \<noteq> DELETE" by (auto simp: tombstoned_def)
    with q(1) r(2) show "k \<in> set (snapshot_example_ids d did c)"
      by (auto simp: snapshot_member)
  qed
qed

lemma qa_unique: "unique_versions qa_database"
  by code_simp

lemma record_indices:
  "map (\<lambda>rec. rec ''__example_index__'') (map example_record rows) =
   map (\<lambda>i. Some (JNum i)) (example_indices rows)"
  by (induction rows) (auto simp: example_record_def example_indices_def)

lemma qa_no_tombstone_v1:
  "\<forall>k \<in> qualifying_examples qa_database 1 (Some 1). \<not> tombstoned qa_database (Some 1) k"
  by (simp add: qualifying_examples_def tombstoned_def selected_def qualifying_def in_dataset_def
        qa_database_def revision_def tombstone_def below_ceiling_def)


subsection \<open>Which examples a snapshot holds\<close>

text \<open>
  Claim C1, as the code has it. For a log in which no two revisions of an example share
  a version id: the statement returns exactly the examples of the dataset whose selected
  revision (the one of greatest version id within the ceiling) is not a \<open>DELETE\<close>; an
  example whose selected revision is a \<open>DELETE\<close> is absent; in particular an example with
  a \<open>DELETE\<close> revision at a version up to the ceiling \<open>V\<close> is absent at \<open>V\<close> when no
  revision of it lies between that version and \<open>V\<close>; and an example whose selected
  revision is not a \<open>DELETE\<close> is returned with the payload of that revision, also at a
  ceiling below a later \<open>DELETE\<close>.
\<close>

theorem snapshot_excludes_tombstoned:
  assumes "unique_versions d"
  shows "(k \<in> set (snapshot_example_ids d did c) \<longleftrightarrow>
            in_dataset d did k
            \<and> (\<exists>r \<in> set (dataset_example_revisions d). selected d c k r \<and> revision_kind r \<noteq> DELETE))
     \<and> (tombstoned d c k \<longrightarrow> k \<notin> set (snapshot_example_ids d did c))
     \<and> (t \<in> set (dataset_example_revisions d) \<and> revision_kind t = DELETE
          \<and> dataset_version_id t \<le> V
          \<and> (\<forall>r \<in> set (dataset_example_revisions d).
                dataset_example_id r = dataset_example_id t \<and> dataset_version_id r \<le> V
                  \<longrightarrow> dataset_version_id r \<le> dataset_version_id t)
          \<longrightarrow> dataset_example_id t \<notin> set (snapshot_example_ids d did (Some V)))
     \<and> (in_dataset d did k \<and> selected d c k r \<and> revision_kind r \<noteq> DELETE
          \<longrightarrow> (rev_input r, rev_output r, rev_metadata r, example_index_at d did c k) \<in> set (stmt d did c))"
proof (intro conjI impI)
  show "k \<in> set (snapshot_example_ids d did c) \<longleftrightarrow>
            in_dataset d did k
            \<and> (\<exists>r \<in> set (dataset_example_revisions d). selected d c k r \<and> revision_kind r \<noteq> DELETE)"
    unfolding snapshot_member using selected_in_log by blast
next
  assume "tombstoned d c k"
  with assms show "k \<notin> set (snapshot_example_ids d did c)" by (rule tombstoned_absent)
next
  assume a: "t \<in> set (dataset_example_revisions d) \<and> revision_kind t = DELETE
          \<and> dataset_version_id t \<le> V
          \<and> (\<forall>r \<in> set (dataset_example_revisions d).
                dataset_example_id r = dataset_example_id t \<and> dataset_version_id r \<le> V
                  \<longrightarrow> dataset_version_id r \<le> dataset_version_id t)"
  then have "selected d (Some V) (dataset_example_id t) t"
    by (intro tombstone_selected) (simp_all add: below_ceiling_def)
  with a have "tombstoned d (Some V) (dataset_example_id t)" by (auto simp: tombstoned_def)
  with assms show "dataset_example_id t \<notin> set (snapshot_example_ids d did (Some V))"
    by (rule tombstoned_absent)
next
  assume "in_dataset d did k \<and> selected d c k r \<and> revision_kind r \<noteq> DELETE"
  then show "(rev_input r, rev_output r, rev_metadata r, example_index_at d did c k) \<in> set (stmt d did c)"
    by (simp add: stmt_row_member)
qed


theorem snapshot_excludes_tombstoned_witness:
  "unique_versions qa_database
   \<and> tombstone 2 2 \<in> set (dataset_example_revisions qa_database)
   \<and> 2 \<notin> set (snapshot_example_ids qa_database 1 (Some 2))"
proof -
  have a: "tombstone 2 2 \<in> set (dataset_example_revisions qa_database)"
    by (simp add: qa_database_def)
  have b: "revision_kind (tombstone 2 2) = DELETE \<and> dataset_version_id (tombstone 2 2) \<le> 2
     \<and> dataset_example_id (tombstone 2 2) = 2"
    by (simp add: tombstone_def)
  have c: "\<forall>r \<in> set (dataset_example_revisions qa_database).
             dataset_example_id r = dataset_example_id (tombstone 2 2) \<and> dataset_version_id r \<le> 2
               \<longrightarrow> dataset_version_id r \<le> dataset_version_id (tombstone 2 2)"
    by (simp add: qa_database_def tombstone_def revision_def)
  note th = snapshot_excludes_tombstoned [OF qa_unique, where t = "tombstone 2 2" and V = 2 and did = 1
      and k = 2 and c = "Some 2" and r = "tombstone 2 2"]
  from th [THEN conjunct2, THEN conjunct2, THEN conjunct1] a b c
  have "dataset_example_id (tombstone 2 2) \<notin> set (snapshot_example_ids qa_database 1 (Some 2))"
    by blast
  with a b qa_unique show ?thesis by simp
qed

theorem resurrected_counterexample:
  "tombstone 2 2 \<in> set (dataset_example_revisions qa_database)
   \<and> revision_kind (tombstone 2 2) = DELETE
   \<and> dataset_version_id (tombstone 2 2) \<le> 3
   \<and> 2 \<in> set (snapshot_example_ids qa_database 1 (Some 3))"
proof -
  have "tombstone 2 2 \<in> set (dataset_example_revisions qa_database)"
    by (simp add: qa_database_def)
  moreover have "revision_kind (tombstone 2 2) = DELETE \<and> dataset_version_id (tombstone 2 2) \<le> 3"
    by (simp add: tombstone_def)
  moreover have "2 \<in> set (snapshot_example_ids qa_database 1 (Some 3))"
    by code_simp
  ultimately show ?thesis by simp
qed

subsection \<open>The example index\<close>

text \<open>
  Claim C2, as the code has it. For a log in which no two revisions of an example share
  a version id: the rows come in strictly ascending example id; the \<open>example_index\<close> of a
  row is the number of examples of the dataset with a revision within the ceiling and a
  smaller id, tombstoned examples included; the indices are strictly increasing; they
  are \<open>0, ..., n - 1\<close> when no such example is tombstoned at the ceiling; and each record
  carries its index under \<open>__example_index__\<close>.
\<close>

theorem example_index_rank:
  assumes "unique_versions d"
  shows "sorted_wrt (<) (snapshot_example_ids d did c)
     \<and> example_indices (stmt d did c) = map (example_index_at d did c) (snapshot_example_ids d did c)
     \<and> sorted_wrt (<) (example_indices (stmt d did c))
     \<and> ((\<forall>k \<in> qualifying_examples d did c. \<not> tombstoned d c k) \<longrightarrow>
           example_indices (stmt d did c) = map int [0..<length (stmt d did c)])
     \<and> map (\<lambda>rec. rec ''__example_index__'') (map example_record (stmt d did c)) =
         map (\<lambda>i. Some (JNum i)) (example_indices (stmt d did c))"
  using strictly_ascending_ids [OF assms] example_indices_stmt strictly_increasing_indices [OF assms]
    dense_indices [OF assms no_tombstone_all_survive [OF assms]] record_indices
  by blast


theorem example_index_rank_witness:
  "unique_versions qa_database
   \<and> sorted_wrt (<) (example_indices (stmt qa_database 1 (Some 1)))
   \<and> example_indices (stmt qa_database 1 (Some 1)) = map int [0..<length (stmt qa_database 1 (Some 1))]"
proof -
  note th = example_index_rank [OF qa_unique, where did = 1 and c = "Some 1"]
  from th [THEN conjunct2, THEN conjunct2, THEN conjunct1]
    th [THEN conjunct2, THEN conjunct2, THEN conjunct2, THEN conjunct1, THEN mp, OF qa_no_tombstone_v1]
    qa_unique
  show ?thesis by simp
qed

theorem example_index_gap_counterexample:
  "response_indices (get_dataset_download_csv qa_database (download 1 (Some 2))) =
     [Some (JNum 0), Some (JNum 2)]"
  by code_simp


subsection \<open>The version id of an export\<close>









lemma export_dataset_id_out_of_range:
  assumes "datasetId request = Some g" "type_name g = ''Dataset''"
    and "case datasetVersionId request of None \<Rightarrow> True | Some v \<Rightarrow> type_name v = ''DatasetVersion''"
    and "\<not> int64 (node_id g)"
  shows "get_dataset_download_csv d request = Unhandled OverflowError"
proof -
  have v: "\<not> (case datasetVersionId request of None \<Rightarrow> False | Some v \<Rightarrow> type_name v \<noteq> ''DatasetVersion'')"
    using assms(3) by (simp split: option.splits)
  with assms(1,2,4) show ?thesis by (simp add: get_dataset_download_csv_def)
qed

lemma export_version_id_out_of_range:
  assumes "datasetId request = Some g" "type_name g = ''Dataset''" "int64 (node_id g)"
    and "datasetVersionId request = Some v" "type_name v = ''DatasetVersion''"
    and "\<not> int64 (node_id v)"
    and "or_else (select_dataset_name d (node_id g)) None = Some nm"
  shows "get_dataset_download_csv d request = Unhandled OverflowError"
  using assms by (simp add: get_dataset_download_csv_def)





subsection \<open>The record of a row\<close>

text \<open>
  Claim C9. The record of a row maps \<open>__example_index__\<close> to the example index and any
  other key to its value in the output document if it has one, else to its value in the
  input document if it has one, else to what the metadata document has.
\<close>

theorem example_record_merge:
  "example_record (inp, outp, metadata, example_index) key =
     (if key = ''__example_index__'' then Some (JNum example_index)
      else case outp key of
             Some v \<Rightarrow> Some v
           | None \<Rightarrow> (case inp key of Some v \<Rightarrow> Some v | None \<Rightarrow> metadata key))"
  by (simp add: example_record_def map_add_def split: option.splits)

theorem example_record_merge_witness:
  "example_record ([''k'' \<mapsto> JNum 1], [''k'' \<mapsto> JNum 2], [''k'' \<mapsto> JNum 3, ''t'' \<mapsto> JNum 4], 0) ''k'' = Some (JNum 2)"
  using example_record_merge [of "[''k'' \<mapsto> JNum 1]" "[''k'' \<mapsto> JNum 2]" "[''k'' \<mapsto> JNum 3, ''t'' \<mapsto> JNum 4]" 0 "''k''"]
  by simp


section \<open>Properties of the upsert\<close>

lemma stored_key [simp]: "constraint_key (stored v i) = constraint_key v"
  by (simp add: stored_def constraint_key_def annotation_values.defs)

lemma stored_truncate [simp]: "annotation_values.truncate (stored v i) = v"
  by (simp add: stored_def annotation_values.defs)

lemma stored_id [simp]: "annotation_id (stored v i) = i"
  by (simp add: stored_def annotation_values.defs experiment_run_annotation.defs)

lemma stored_score [simp]: "score (stored v i) = score v"
  by (simp add: stored_def annotation_values.defs)

lemma rows_of_key_single:
  assumes "unique_constraint table" "rows_of_key table k = x # xs"
  shows "xs = []"
proof -
  from assms(1) have "distinct (map constraint_key (rows_of_key table k))"
    unfolding unique_constraint_def rows_of_key_def by (simp add: distinct_map_filter)
  moreover have "\<forall>y \<in> set (rows_of_key table k). constraint_key y = k"
    by (simp add: rows_of_key_def)
  ultimately show ?thesis using assms(2) by (cases xs) auto
qed

lemma insert_on_conflict_insert:
  assumes "rows_of_key table (constraint_key v) = []"
  shows "insert_on_conflict table v u =
     (table @ [stored v (next_annotation_id table)], stored v (next_annotation_id table))"
  using assms by (simp add: insert_on_conflict_def rows_of_key_def)

lemma insert_on_conflict_update:
  assumes "rows_of_key table (constraint_key v) = x # xs"
  shows "insert_on_conflict table v u =
     (map (\<lambda>row. if constraint_key row = constraint_key v then stored u (annotation_id row) else row) table,
      stored u (annotation_id x))"
  using assms by (simp add: insert_on_conflict_def rows_of_key_def)

lemma rows_of_key_map_update:
  assumes "constraint_key u = k"
  shows "rows_of_key (map (\<lambda>row. if constraint_key row = k then stored u (annotation_id row) else row) table) k
       = map (\<lambda>row. stored u (annotation_id row)) (rows_of_key table k)"
  using assms by (induction table) (auto simp: rows_of_key_def)

lemma keys_map_update:
  assumes "constraint_key u = k"
  shows "map (constraint_key \<circ> (\<lambda>row. if constraint_key row = k then stored u (annotation_id row) else row)) table
       = map constraint_key table"
  using assms by (induction table) auto

lemma upsert_one_row:
  assumes "unique_constraint table" "constraint_key u = constraint_key v"
  shows "rows_of_key (fst (insert_on_conflict table v u)) (constraint_key v) = [snd (insert_on_conflict table v u)]
     \<and> unique_constraint (fst (insert_on_conflict table v u))
     \<and> annotation_values.truncate (snd (insert_on_conflict table v u))
         = (if rows_of_key table (constraint_key v) = [] then v else u)"
proof (cases "rows_of_key table (constraint_key v)")
  case Nil
  then have "constraint_key v \<notin> set (map constraint_key table)"
    by (auto simp: rows_of_key_def filter_empty_conv)
  with Nil assms(1) show ?thesis
    by (simp add: insert_on_conflict_insert unique_constraint_def) (simp add: rows_of_key_def)
next
  case (Cons x xs)
  with assms(1) have xs: "xs = []" by (rule rows_of_key_single)
  from Cons xs assms show ?thesis
    by (simp add: insert_on_conflict_update rows_of_key_map_update unique_constraint_def keys_map_update)
qed

lemma upsert_valid:
  assumes "type_name (payload_experiment_run_id p) = ''ExperimentRun''"
    and "fromisoformat (payload_start_time p) = Inr s" "fromisoformat (payload_end_time p) = Inr e"
    and "int64 (node_id (payload_experiment_run_id p))"
    and "node_id (payload_experiment_run_id p) \<in> set (experiment_runs d)"
  shows "upsert_experiment_evaluation fromisoformat d p =
     (EvaluationJSON (snd (insert_on_conflict (experiment_run_annotations d)
                             (payload_values p s e) (payload_values p s e))),
      d\<lparr>experiment_run_annotations :=
           fst (insert_on_conflict (experiment_run_annotations d)
                  (payload_values p s e) (payload_values p s e))\<rparr>)"
proof -
  have "experiment_run_id (payload_values p s e) = node_id (payload_experiment_run_id p)"
    by (simp add: payload_values_def)
  with assms show ?thesis
    by (simp add: upsert_experiment_evaluation_def Let_def case_prod_beta)
qed

lemma upsert_malformed_time:
  assumes "type_name (payload_experiment_run_id p) = ''ExperimentRun''"
    and "fromisoformat (payload_start_time p) = Inl x
         \<or> (\<exists>s. fromisoformat (payload_start_time p) = Inr s) \<and> fromisoformat (payload_end_time p) = Inl x"
  shows "upsert_experiment_evaluation fromisoformat d p = (Unhandled x, d)"
  using assms by (auto simp: upsert_experiment_evaluation_def)

lemma upsert_unknown_run:
  assumes "type_name (payload_experiment_run_id p) = ''ExperimentRun''"
    and "fromisoformat (payload_start_time p) = Inr s" "fromisoformat (payload_end_time p) = Inr e"
    and "int64 (node_id (payload_experiment_run_id p))"
    and "node_id (payload_experiment_run_id p) \<notin> set (experiment_runs d)"
  shows "upsert_experiment_evaluation fromisoformat d p = (Unhandled IntegrityError, d)"
  using assms by (simp add: upsert_experiment_evaluation_def payload_values_def)

lemma stored_values: "annotation_values.truncate row = v \<Longrightarrow> score row = score v"
  by (auto simp: annotation_values.defs)

text \<open>
  Claim C4. In a table that satisfies the uniqueness constraint, for requests that name
  an existing \<open>ExperimentRun\<close> by an id that the driver binds and whose times parse: when
  no row has the key (experiment_run_id, name), the upsert appends a row with the given
  values and answers with it; when a row has the key, it replaces that row's values by
  the new ones, keeps its id and answers with the resulting row; and after two upserts
  with the same key exactly one row has that key, and it holds the values, so the score,
  of the second.
\<close>

theorem upsert_last_writer_wins:
  assumes "unique_constraint (experiment_run_annotations d)"
    and "type_name (payload_experiment_run_id p1) = ''ExperimentRun''"
    and "type_name (payload_experiment_run_id p2) = ''ExperimentRun''"
    and "fromisoformat (payload_start_time p1) = Inr s1" "fromisoformat (payload_end_time p1) = Inr e1"
    and "fromisoformat (payload_start_time p2) = Inr s2" "fromisoformat (payload_end_time p2) = Inr e2"
    and "int64 (node_id (payload_experiment_run_id p1))"
    and "node_id (payload_experiment_run_id p1) \<in> set (experiment_runs d)"
    and "constraint_key (payload_values p1 s1 e1) = constraint_key (payload_values p2 s2 e2)"
  shows "(rows_of_key (experiment_run_annotations d) (constraint_key (payload_values p1 s1 e1)) = [] \<longrightarrow>
            upsert_experiment_evaluation fromisoformat d p1 =
              (EvaluationJSON (stored (payload_values p1 s1 e1) (next_annotation_id (experiment_run_annotations d))),
               d\<lparr>experiment_run_annotations := experiment_run_annotations d
                     @ [stored (payload_values p1 s1 e1) (next_annotation_id (experiment_run_annotations d))]\<rparr>))
     \<and> (\<forall>x. rows_of_key (experiment_run_annotations d) (constraint_key (payload_values p1 s1 e1)) = [x] \<longrightarrow>
            upsert_experiment_evaluation fromisoformat d p1 =
              (EvaluationJSON (stored (payload_values p1 s1 e1) (annotation_id x)),
               d\<lparr>experiment_run_annotations :=
                    map (\<lambda>row. if constraint_key row = constraint_key (payload_values p1 s1 e1)
                                 then stored (payload_values p1 s1 e1) (annotation_id row) else row)
                        (experiment_run_annotations d)\<rparr>))
     \<and> (\<exists>row. rows_of_key (experiment_run_annotations (run_upserts fromisoformat d [p1, p2]))
                  (constraint_key (payload_values p2 s2 e2)) = [row]
               \<and> annotation_values.truncate row = payload_values p2 s2 e2
               \<and> score row = score (payload_values p2 s2 e2))"
proof (intro conjI impI allI)
  note v1 = upsert_valid [OF assms(2) assms(4) assms(5) assms(8) assms(9)]
  assume "rows_of_key (experiment_run_annotations d) (constraint_key (payload_values p1 s1 e1)) = []"
  then show "upsert_experiment_evaluation fromisoformat d p1 =
              (EvaluationJSON (stored (payload_values p1 s1 e1) (next_annotation_id (experiment_run_annotations d))),
               d\<lparr>experiment_run_annotations := experiment_run_annotations d
                     @ [stored (payload_values p1 s1 e1) (next_annotation_id (experiment_run_annotations d))]\<rparr>)"
    by (simp add: v1 insert_on_conflict_insert)
next
  note v1 = upsert_valid [OF assms(2) assms(4) assms(5) assms(8) assms(9)]
  fix x
  assume "rows_of_key (experiment_run_annotations d) (constraint_key (payload_values p1 s1 e1)) = [x]"
  then show "upsert_experiment_evaluation fromisoformat d p1 =
              (EvaluationJSON (stored (payload_values p1 s1 e1) (annotation_id x)),
               d\<lparr>experiment_run_annotations :=
                    map (\<lambda>row. if constraint_key row = constraint_key (payload_values p1 s1 e1)
                                 then stored (payload_values p1 s1 e1) (annotation_id row) else row)
                        (experiment_run_annotations d)\<rparr>)"
    by (simp add: v1 insert_on_conflict_update)
next
  let ?a1 = "payload_values p1 s1 e1"
  let ?a2 = "payload_values p2 s2 e2"
  let ?t0 = "experiment_run_annotations d"
  let ?t1 = "fst (insert_on_conflict ?t0 ?a1 ?a1)"
  let ?d1 = "d\<lparr>experiment_run_annotations := ?t1\<rparr>"
  let ?r2 = "insert_on_conflict ?t1 ?a2 ?a2"
  note v1 = upsert_valid [OF assms(2) assms(4) assms(5) assms(8) assms(9)]
  from assms(10) have same: "node_id (payload_experiment_run_id p2) = node_id (payload_experiment_run_id p1)"
    by (simp add: constraint_key_def payload_values_def)
  have r2: "int64 (node_id (payload_experiment_run_id p2))"
    "node_id (payload_experiment_run_id p2) \<in> set (experiment_runs ?d1)"
    using assms(8,9) same by simp_all
  note v2 = upsert_valid [OF assms(3) assms(6) assms(7) r2]
  from upsert_one_row [OF assms(1) refl, of ?a1]
  have one: "rows_of_key ?t1 (constraint_key ?a1) = [snd (insert_on_conflict ?t0 ?a1 ?a1)]"
    and u1: "unique_constraint ?t1" by simp_all
  from upsert_one_row [OF u1 refl, of ?a2] one assms(10)
  have two: "rows_of_key (fst ?r2) (constraint_key ?a2) = [snd ?r2]"
    and val: "annotation_values.truncate (snd ?r2) = ?a2" by simp_all
  have "experiment_run_annotations (run_upserts fromisoformat d [p1, p2]) = fst ?r2"
    by (simp add: run_upserts_def v1 v2)
  with two val stored_values [OF val]
  show "\<exists>row. rows_of_key (experiment_run_annotations (run_upserts fromisoformat d [p1, p2]))
                  (constraint_key ?a2) = [row]
               \<and> annotation_values.truncate row = ?a2
               \<and> score row = score ?a2"
    by simp
qed

lemma plain_times:
  "plain_fromisoformat ''2024-01-01T00:00:00'' = Inr (Datetime 2024 1 1 0 0 0)"
  "plain_fromisoformat ''2024-01-01T00:00:01'' = Inr (Datetime 2024 1 1 0 0 1)"
  "plain_fromisoformat ''not-a-date'' = Inl (ValueError (LibraryMessage ''not-a-date''))"
  by code_simp+

theorem upsert_last_writer_wins_witness:
  "\<exists>row. rows_of_key (experiment_run_annotations
             (run_upserts plain_fromisoformat run_database
                [evaluation 7 ''accuracy'' 0.5, evaluation 7 ''accuracy'' 0.9]))
             (7, ''accuracy'') = [row]
        \<and> score row = Some 0.9"
proof -
  let ?s = "Datetime 2024 1 1 0 0 0"
  let ?e = "Datetime 2024 1 1 0 0 1"
  have h1: "unique_constraint (experiment_run_annotations run_database)"
    by (simp add: unique_constraint_def run_database_def empty_database_def)
  have h2: "type_name (payload_experiment_run_id (evaluation 7 ''accuracy'' 0.5)) = ''ExperimentRun''"
    by (simp add: evaluation_def)
  have h3: "type_name (payload_experiment_run_id (evaluation 7 ''accuracy'' 0.9)) = ''ExperimentRun''"
    by (simp add: evaluation_def)
  have t1: "plain_fromisoformat (payload_start_time (evaluation 7 ''accuracy'' 0.5)) = Inr ?s"
    "plain_fromisoformat (payload_end_time (evaluation 7 ''accuracy'' 0.5)) = Inr ?e"
    "plain_fromisoformat (payload_start_time (evaluation 7 ''accuracy'' 0.9)) = Inr ?s"
    "plain_fromisoformat (payload_end_time (evaluation 7 ''accuracy'' 0.9)) = Inr ?e"
    by (simp_all add: evaluation_def plain_times)
  have h8: "int64 (node_id (payload_experiment_run_id (evaluation 7 ''accuracy'' 0.5)))"
    by (simp add: evaluation_def int64_def)
  have h9: "node_id (payload_experiment_run_id (evaluation 7 ''accuracy'' 0.5)) \<in> set (experiment_runs run_database)"
    by (simp add: evaluation_def run_database_def)
  have h10: "constraint_key (payload_values (evaluation 7 ''accuracy'' 0.5) ?s ?e) =
            constraint_key (payload_values (evaluation 7 ''accuracy'' 0.9) ?s ?e)"
    by (simp add: evaluation_def payload_values_def constraint_key_def)
  have k: "constraint_key (payload_values (evaluation 7 ''accuracy'' 0.9) ?s ?e) = (7, ''accuracy'')"
    by (simp add: evaluation_def payload_values_def constraint_key_def)
  have s: "score (payload_values (evaluation 7 ''accuracy'' 0.9) ?s ?e) = Some 0.9"
    by (simp add: evaluation_def payload_values_def)
  note th = upsert_last_writer_wins [OF h1 h2 h3 t1 h8 h9 h10]
  from th [THEN conjunct2, THEN conjunct2] show ?thesis
    unfolding k s by blast
qed

end
